theory Spec2Isabelle
  imports Complex_Main "HOL-Library.Multiset" "HOL-Library.Sublist"
begin

section \<open>Strings\<close>

text \<open>
  Strings of the program are modelled as \<^typ>\<open>string\<close>, one \<^typ>\<open>char\<close> per character
  (the code units below 256 of a JavaScript string). \<open>toLowerCase\<close> folds the capital letters
  of that range: \<open>A\<close> to \<open>Z\<close>, and the accented capitals 192 to 222 except 215.
\<close>

definition lower_char :: "char \<Rightarrow> char" where
  "lower_char c =
     (let n = of_char c :: nat
      in if (65 \<le> n \<and> n \<le> 90) \<or> (192 \<le> n \<and> n \<le> 214) \<or> (216 \<le> n \<and> n \<le> 222)
         then char_of (n + 32) else c)"

definition toLowerCase :: "string \<Rightarrow> string" where
  "toLowerCase s = map lower_char s"

text \<open>\<open>s.startsWith(p)\<close> and \<open>s.includes(p)\<close>.\<close>

fun startsWith :: "string \<Rightarrow> string \<Rightarrow> bool" where
  "startsWith s [] = True"
| "startsWith [] (p # ps) = False"
| "startsWith (c # cs) (p # ps) = (c = p \<and> startsWith cs ps)"

fun str_includes :: "string \<Rightarrow> string \<Rightarrow> bool" where
  "str_includes [] p = (p = [])"
| "str_includes (c # cs) p = (startsWith (c # cs) p \<or> str_includes cs p)"

section \<open>Candidate articles and topics\<close>

text \<open>\<open>NormalizedArticle\<close> of rss-normalizer.service.ts (\<open>CreateArticleInput\<close> plus \<open>urlHash\<close>);
  optional fields are options, \<open>publishedAt\<close> is a time in milliseconds.\<close>

record NormalizedArticle =
  sourceId :: string
  externalId :: "string option"
  url :: string
  urlHash :: string
  title :: string
  lede :: "string option"
  fullText :: "string option"
  author :: "string option"
  publishedAt :: "int option"

text \<open>The \<open>{ id, keywords }\<close> projection of a topic that the fetch worker hands to the matcher.\<close>

record TopicForMatching =
  topic_id :: string
  topic_keywords :: "string list"

section \<open>Topic matcher (rss-normalizer.service.ts)\<close>

text \<open>\<open>article.lede || ''\<close>: an absent or empty lede reads as the empty string.\<close>

definition lede_or_empty :: "'a NormalizedArticle_scheme \<Rightarrow> string" where
  "lede_or_empty a = (case lede a of None \<Rightarrow> [] | Some l \<Rightarrow> l)"

definition match_text :: "'a NormalizedArticle_scheme \<Rightarrow> string" where
  "match_text a = toLowerCase (title a @ '' '' @ lede_or_empty a)"

definition quickRelevanceCheck :: "'a NormalizedArticle_scheme \<Rightarrow> string list \<Rightarrow> bool" where
  "quickRelevanceCheck a kws =
     list_ex (\<lambda>keyword. str_includes (toLowerCase (match_text a)) (toLowerCase keyword)) kws"

fun checkAgainstTopics :: "'a NormalizedArticle_scheme \<Rightarrow> TopicForMatching list \<Rightarrow> string list" where
  "checkAgainstTopics a [] = []"
| "checkAgainstTopics a (t # ts) =
     (if quickRelevanceCheck a (topic_keywords t) then topic_id t # checkAgainstTopics a ts
      else checkAgainstTopics a ts)"

section \<open>External collaborators: durable store, cache, queue\<close>

text \<open>A value thrown by an external call: an \<open>Error\<close> object with its message, or any other value.\<close>

datatype thrown = ErrorObj string | NonError

datatype ArticleStatus = pending | analyzing | relevant | irrelevant | error_status

text \<open>A row of the \<open>articles\<close> table. Times are milliseconds.\<close>

record Article =
  art_id :: nat
  art_source_id :: string
  art_external_id :: "string option"
  art_url :: string
  art_url_hash :: string
  art_title :: string
  art_lede :: "string option"
  art_full_text :: "string option"
  art_author :: "string option"
  art_published_at :: "int option"
  art_status :: ArticleStatus
  art_created_at :: int

text \<open>Payload of a classification job (\<open>AiAnalysisJobData\<close> of queues.ts).\<close>

record AiAnalysisJobData =
  job_articleId :: nat
  job_title :: string
  job_lede :: string
  job_sourceName :: string
  job_url :: string
  job_topicIds :: "string list"

text \<open>Rows of the \<open>scan_logs\<close> and \<open>daily_summaries\<close> tables, and the payload of a
  source-fetch job (\<open>RssScanJobData\<close> of queues.ts).\<close>

record ScanLog =
  log_id :: nat
  log_started_at :: int

record DailySummary =
  sum_id :: nat
  summary_date :: int

record RssScanJobData =
  rss_sourceId :: string
  rss_feedUrl :: string
  rss_sourceName :: string

text \<open>
  The state shared by the workers: the \<open>articles\<close> table and the generator of its row
  identifiers, the \<open>scan_logs\<close> and \<open>daily_summaries\<close> tables (a summary's date is a day
  number), the cache (key to value and time-to-live in seconds), the classification queue and
  the source-fetch queue.
\<close>

record world =
  articles_tbl :: "Article list"
  next_article_id :: nat
  scan_logs_tbl :: "ScanLog list"
  daily_summaries_tbl :: "DailySummary list"
  redis :: "string \<rightharpoonup> (string \<times> nat)"
  ai_queue :: "AiAnalysisJobData list"
  rss_queue :: "RssScanJobData list"

text \<open>
  What the code takes from its runtime and its collaborators: the digest behind \<open>hashUrl\<close>
  (SHA-256 in hex), the clock (milliseconds), \<open>new URL(s).href\<close> (\<open>None\<close> when the
  constructor throws), the time value of \<open>new Date(s)\<close> (\<open>None\<close> for an invalid date), and for
  each external call whether it throws.
\<close>

record env =
  hashUrl :: "string \<Rightarrow> string"
  now :: int
  url_href :: "string \<Rightarrow> string option"
  date_parse :: "string \<Rightarrow> int option"
  db_insert_error :: "string \<Rightarrow> thrown option"
  db_select_error :: "string list \<Rightarrow> thrown option"
  db_delete_error :: "string \<Rightarrow> thrown option"
  redis_mget_fails :: bool
  redis_setex_fails :: "string \<Rightarrow> bool"
  redis_pipeline_error :: "thrown option"
  queue_add_error :: "AiAnalysisJobData \<Rightarrow> thrown option"

section \<open>ArticleRepository.create\<close>

text \<open>\<open>x || null\<close> on an optional string: absent and empty both become \<open>null\<close>.\<close>

definition or_null :: "string option \<Rightarrow> string option" where
  "or_null x = (case x of None \<Rightarrow> None | Some s \<Rightarrow> if s = [] then None else Some s)"

text \<open>
  \<open>INSERT INTO articles (...) VALUES (..., 'pending') ON CONFLICT (url_hash) DO NOTHING RETURNING *\<close>
  and \<open>return result.rows[0]\<close>: on a conflicting \<open>url_hash\<close> the table is left as it is and no
  row comes back; a failing query throws.
\<close>

definition create :: "env \<Rightarrow> world \<Rightarrow> 'a NormalizedArticle_scheme \<Rightarrow> world \<times> (thrown + Article option)" where
  "create e w inp =
     (let h = hashUrl e (url inp) in
      case db_insert_error e (url inp) of
        Some err \<Rightarrow> (w, Inl err)
      | None \<Rightarrow>
          if list_ex (\<lambda>a. art_url_hash a = h) (articles_tbl w) then (w, Inr None)
          else
            (let row = \<lparr> art_id = next_article_id w, art_source_id = sourceId inp,
                          art_external_id = or_null (externalId inp), art_url = url inp,
                          art_url_hash = h, art_title = title inp, art_lede = or_null (lede inp),
                          art_full_text = or_null (fullText inp), art_author = or_null (author inp),
                          art_published_at = publishedAt inp, art_status = pending,
                          art_created_at = now e \<rparr>
             in (w\<lparr> articles_tbl := articles_tbl w @ [row],
                     next_article_id := Suc (next_article_id w) \<rparr>, Inr (Some row))))"

section \<open>Deduplicator (deduplicator.service.ts)\<close>

definition REDIS_KEY_PREFIX :: string where
  "REDIS_KEY_PREFIX = ''url_hash:''"

definition CACHE_TTL_SECONDS :: nat where
  "CACHE_TTL_SECONDS = 86400 * 7"

record DeduplicationResult =
  newArticles :: "NormalizedArticle list"
  duplicates :: nat
  cacheHits :: nat
  dbChecks :: nat

text \<open>What one cache value means to \<open>batchCheckCache\<close>: \<open>'exists'\<close>, \<open>'new'\<close> or \<open>null\<close>.\<close>

datatype cache_state = Exists | New | Unknown

definition cache_value_state :: "(string \<times> nat) option \<Rightarrow> cache_state" where
  "cache_value_state v =
     (case v of
        None \<Rightarrow> Unknown
      | Some (s, ttl) \<Rightarrow> if s = ''exists'' then Exists else if s = ''new'' then New else Unknown)"

text \<open>\<open>batchCheckCache\<close>: one \<open>mget\<close>, then \<open>results.set\<close> per hash; a failing cache read makes
  every hash unknown.\<close>

definition batchCheckCache :: "env \<Rightarrow> world \<Rightarrow> string list \<Rightarrow> (string \<rightharpoonup> cache_state)" where
  "batchCheckCache e w urlHashes =
     (if urlHashes = [] then Map.empty
      else if redis_mget_fails e then
        foldl (\<lambda>results h. results(h \<mapsto> Unknown)) Map.empty urlHashes
      else
        foldl (\<lambda>results h. results(h \<mapsto> cache_value_state (redis w (REDIS_KEY_PREFIX @ h))))
          Map.empty urlHashes)"

text \<open>\<open>cacheUrlHash\<close>: \<open>setex\<close> of \<open>'exists'\<close> or \<open>'new'\<close>; a failing write is logged and dropped.\<close>

definition cacheUrlHash :: "env \<Rightarrow> world \<Rightarrow> string \<Rightarrow> bool \<Rightarrow> world" where
  "cacheUrlHash e w h ex =
     (if redis_setex_fails e (REDIS_KEY_PREFIX @ h) then w
      else w\<lparr> redis := (redis w)(REDIS_KEY_PREFIX @ h \<mapsto>
                 (if ex then ''exists'' else ''new'', CACHE_TTL_SECONDS)) \<rparr>)"

text \<open>\<open>SELECT url_hash FROM articles WHERE url_hash IN (batch)\<close>.\<close>

definition select_url_hashes :: "world \<Rightarrow> string list \<Rightarrow> string list" where
  "select_url_hashes w batch =
     map art_url_hash (filter (\<lambda>a. art_url_hash a \<in> set batch) (articles_tbl w))"

text \<open>The loop of \<open>batchCheckDatabase\<close> over slices of 100 hashes; \<open>existing\<close> is the set built
  so far. A failing query is rethrown.\<close>

function batchCheckDatabase_loop ::
  "env \<Rightarrow> world \<Rightarrow> string list \<Rightarrow> string list \<Rightarrow> thrown + string list" where
  "batchCheckDatabase_loop e w rest existing =
     (if rest = [] then Inr existing
      else
        (let batch = take 100 rest in
         case db_select_error e batch of
           Some err \<Rightarrow> Inl err
         | None \<Rightarrow> batchCheckDatabase_loop e w (drop 100 rest) (existing @ select_url_hashes w batch)))"
  by pat_completeness auto
termination
  by (relation "measure (\<lambda>(e, w, rest, existing). length rest)") auto

declare batchCheckDatabase_loop.simps [simp del]

definition batchCheckDatabase :: "env \<Rightarrow> world \<Rightarrow> string list \<Rightarrow> thrown + string list" where
  "batchCheckDatabase e w urlHashes =
     (if urlHashes = [] then Inr [] else batchCheckDatabase_loop e w urlHashes [])"

text \<open>The first loop of \<open>filterDuplicates\<close>, over the cache results. The accumulator is
  \<open>(newArticles, duplicates, cacheHits, needsDbCheck)\<close>.\<close>

type_synonym cache_acc = "NormalizedArticle list \<times> nat \<times> nat \<times> NormalizedArticle list"

definition cache_step :: "(string \<rightharpoonup> cache_state) \<Rightarrow> cache_acc \<Rightarrow> NormalizedArticle \<Rightarrow> cache_acc" where
  "cache_step cacheResults acc article =
     (case acc of (new, dups, hits, needsDbCheck) \<Rightarrow>
        (case cacheResults (urlHash article) of
           Some Exists \<Rightarrow> (new, Suc dups, Suc hits, needsDbCheck)
         | Some New \<Rightarrow> (new @ [article], dups, Suc hits, needsDbCheck)
         | _ \<Rightarrow> (new, dups, hits, needsDbCheck @ [article])))"

text \<open>The second loop, over the articles the cache did not know. The accumulator is
  \<open>(world, newArticles, duplicates)\<close>.\<close>

type_synonym db_acc = "world \<times> NormalizedArticle list \<times> nat"

definition db_step :: "env \<Rightarrow> string list \<Rightarrow> db_acc \<Rightarrow> NormalizedArticle \<Rightarrow> db_acc" where
  "db_step e dbResults acc article =
     (case acc of (w, new, dups) \<Rightarrow>
        if urlHash article \<in> set dbResults
        then (cacheUrlHash e w (urlHash article) True, new, Suc dups)
        else (cacheUrlHash e w (urlHash article) False, new @ [article], dups))"

definition filterDuplicates ::
  "env \<Rightarrow> world \<Rightarrow> NormalizedArticle list \<Rightarrow> world \<times> (thrown + DeduplicationResult)" where
  "filterDuplicates e w articles =
     (let urlHashes = map urlHash articles;
          cacheResults = batchCheckCache e w urlHashes
      in case foldl (cache_step cacheResults) ([], 0, 0, []) articles of
           (new, dups, hits, needsDbCheck) \<Rightarrow>
             if length needsDbCheck > 0 then
               (case batchCheckDatabase e w (map urlHash needsDbCheck) of
                  Inl err \<Rightarrow> (w, Inl err)
                | Inr dbResults \<Rightarrow>
                    (case foldl (db_step e dbResults) (w, new, dups) needsDbCheck of
                       (w', new', dups') \<Rightarrow>
                         (w', Inr \<lparr> newArticles = new', duplicates = dups', cacheHits = hits,
                                    dbChecks = length needsDbCheck \<rparr>)))
             else (w, Inr \<lparr> newArticles = new, duplicates = dups, cacheHits = hits, dbChecks = 0 \<rparr>))"

text \<open>\<open>markBatchAsStored\<close>: one pipeline of \<open>setex key ttl 'exists'\<close>, one per URL; a failing
  \<open>exec\<close> throws.\<close>

definition markBatchAsStored :: "env \<Rightarrow> world \<Rightarrow> string list \<Rightarrow> world \<times> (thrown + unit)" where
  "markBatchAsStored e w urls =
     (if urls = [] then (w, Inr ())
      else case redis_pipeline_error e of
        Some err \<Rightarrow> (w, Inl err)
      | None \<Rightarrow>
          (w\<lparr> redis := foldl (\<lambda>r u. r(REDIS_KEY_PREFIX @ hashUrl e u \<mapsto> (''exists'', CACHE_TTL_SECONDS)))
                          (redis w) urls \<rparr>, Inr ()))"

section \<open>Feed normalizer (rss-normalizer.service.ts)\<close>

record RSSItem =
  guid :: "string option"
  item_title :: "string option"
  link :: "string option"
  pubDate :: "string option"
  isoDate :: "string option"
  creator :: "string option"
  item_author :: "string option"
  content :: "string option"
  contentSnippet :: "string option"
  summary :: "string option"
  description :: "string option"

text \<open>White space of \<open>\s\<close> and \<open>trim()\<close> among the 8-bit characters: tab, line feed, vertical
  tab, form feed, carriage return, space and no-break space.\<close>

definition is_space :: "char \<Rightarrow> bool" where
  "is_space c = (of_char c \<in> {9, 10, 11, 12, 13, 32, 160 :: nat})"

definition trim :: "string \<Rightarrow> string" where
  "trim s = rev (dropWhile is_space (rev (dropWhile is_space s)))"

text \<open>A word character of \<open>\b\<close>: letter, digit or underscore.\<close>

definition is_word_char :: "char \<Rightarrow> bool" where
  "is_word_char c =
     (let n = of_char c :: nat
      in (48 \<le> n \<and> n \<le> 57) \<or> (65 \<le> n \<and> n \<le> 90) \<or> (97 \<le> n \<and> n \<le> 122) \<or> n = 95)"

text \<open>Case-insensitive match of a lower-case pattern at the start of a string.\<close>

definition starts_ci :: "string \<Rightarrow> string \<Rightarrow> bool" where
  "starts_ci s p = startsWith (toLowerCase s) p"

text \<open>The rest of the text after the first occurrence of the closing tag, if there is one.\<close>

fun after_close :: "string \<Rightarrow> string \<Rightarrow> string option" where
  "after_close cl [] = None"
| "after_close cl (c # cs) =
     (if starts_ci (c # cs) cl then Some (drop (length cl) (c # cs)) else after_close cl cs)"

lemma after_close_length: "after_close cl s = Some r \<Longrightarrow> length r \<le> length s"
  by (induction s) (auto split: if_splits)

text \<open>
  \<open>.replace(/<script\b[^<]*(?:(?!<\/script>)<[^<]*)*<\/script>/gi, '')\<close> and the same for
  \<open>style\<close>: at an opening \<open><name\<close> followed by a word boundary the match runs to the end of the
  first closing tag after it; without a closing tag there is no match at that position.
\<close>

function remove_blocks :: "string \<Rightarrow> string \<Rightarrow> string" where
  "remove_blocks name [] = []"
| "remove_blocks name (c # cs) =
     (if starts_ci (c # cs) (CHR ''<'' # name)
         \<and> (case drop (length name) cs of [] \<Rightarrow> True | d # ds \<Rightarrow> \<not> is_word_char d)
      then (case after_close (''</'' @ name @ ''>'') (drop (length name) cs) of
              Some rest \<Rightarrow> remove_blocks name rest
            | None \<Rightarrow> c # remove_blocks name cs)
      else c # remove_blocks name cs)"
  by pat_completeness auto
termination
  by (relation "measure (\<lambda>(name, s). length s)") (auto dest!: after_close_length)

text \<open>\<open>.replace(/<[^>]+>/g, ' ')\<close>: the text after a \<open><\<close> that opens a tag, past the first
  \<open>>\<close>; the tag needs one character that is not \<open>>\<close> first.\<close>

definition tag_rest :: "string \<Rightarrow> string option" where
  "tag_rest cs =
     (case cs of
        [] \<Rightarrow> None
      | d # ds \<Rightarrow>
          if d = CHR ''>'' then None
          else (case dropWhile (\<lambda>x. x \<noteq> CHR ''>'') ds of [] \<Rightarrow> None | g # rest \<Rightarrow> Some rest))"

lemma tag_rest_length: "tag_rest cs = Some r \<Longrightarrow> length r < length cs"
proof -
  assume a: "tag_rest cs = Some r"
  then obtain d ds g where cs: "cs = d # ds" and dw: "dropWhile (\<lambda>x. x \<noteq> CHR ''>'') ds = g # r"
    by (auto simp: tag_rest_def split: list.splits if_splits)
  have "length (dropWhile (\<lambda>x. x \<noteq> CHR ''>'') ds) \<le> length ds"
    by (rule length_dropWhile_le)
  with dw cs show ?thesis by simp
qed

function strip_tags :: "string \<Rightarrow> string" where
  "strip_tags [] = []"
| "strip_tags (c # cs) =
     (if c = CHR ''<'' then
        (case tag_rest cs of
           Some rest \<Rightarrow> CHR '' '' # strip_tags rest
         | None \<Rightarrow> c # strip_tags cs)
      else c # strip_tags cs)"
  by pat_completeness auto
termination
  by (relation "measure length") (auto dest!: tag_rest_length)

text \<open>\<open>.replace(/pat/g, rep)\<close> for a literal, non-empty pattern.\<close>

function replace_all :: "string \<Rightarrow> string \<Rightarrow> string \<Rightarrow> string" where
  "replace_all pat rep [] = []"
| "replace_all pat rep (c # cs) =
     (if pat \<noteq> [] \<and> startsWith (c # cs) pat
      then rep @ replace_all pat rep (drop (length pat) (c # cs))
      else c # replace_all pat rep cs)"
  by pat_completeness auto
termination
  by (relation "measure (\<lambda>(pat, rep, s). length s)") (auto simp: neq_Nil_conv)

text \<open>\<open>.replace(/\s+/g, ' ')\<close>.\<close>

function collapse_ws :: "string \<Rightarrow> string" where
  "collapse_ws [] = []"
| "collapse_ws (c # cs) =
     (if is_space c then CHR '' '' # collapse_ws (dropWhile is_space cs)
      else c # collapse_ws cs)"
  by pat_completeness auto
termination
  by (relation "measure length") (auto simp: length_dropWhile_le less_Suc_eq_le)

definition stripHtml :: "string \<Rightarrow> string" where
  "stripHtml html =
     trim (collapse_ws
       (replace_all ''&#39;'' [CHR 0x27]
       (replace_all ''&quot;'' [CHR 0x22]
       (replace_all ''&gt;'' ''>''
       (replace_all ''&lt;'' ''<''
       (replace_all ''&amp;'' ''&''
       (replace_all ''&nbsp;'' '' ''
       (strip_tags
       (remove_blocks ''style''
       (remove_blocks ''script'' html))))))))))"

definition cleanText :: "string \<Rightarrow> string" where
  "cleanText t = trim (collapse_ws (stripHtml t))"

text \<open>JavaScript truthiness of an optional string: present and not empty.\<close>

definition truthy :: "string option \<Rightarrow> bool" where
  "truthy x = (case x of None \<Rightarrow> False | Some s \<Rightarrow> s \<noteq> [])"

text \<open>\<open>a || b\<close> on optional strings.\<close>

definition or_else :: "string option \<Rightarrow> string option \<Rightarrow> string option" where
  "or_else a b = (if truthy a then a else b)"

text \<open>The loop of \<open>extractLede\<close> over the candidate fields.\<close>

fun extractLede_loop :: "string option list \<Rightarrow> string option" where
  "extractLede_loop [] = None"
| "extractLede_loop (candidate # rest) =
     (case candidate of
        None \<Rightarrow> extractLede_loop rest
      | Some c \<Rightarrow>
          if c \<noteq> [] \<and> length (trim c) > 0 then
            (let cleaned = stripHtml c
             in if length cleaned \<ge> 30 then Some (take 500 cleaned) else extractLede_loop rest)
          else extractLede_loop rest)"

definition extractLede :: "RSSItem \<Rightarrow> string option" where
  "extractLede item =
     extractLede_loop [contentSnippet item, summary item, description item, content item]"

definition cleanUrl :: "env \<Rightarrow> string \<Rightarrow> string option" where
  "cleanUrl e u =
     (let cleaned = trim u
      in if \<not> startsWith cleaned ''http://'' \<and> \<not> startsWith cleaned ''https://'' then None
         else url_href e cleaned)"

definition parseDate :: "env \<Rightarrow> string option \<Rightarrow> int option" where
  "parseDate e dateString =
     (case dateString of
        None \<Rightarrow> None
      | Some s \<Rightarrow>
          if s = [] then None
          else (case date_parse e s of
                  None \<Rightarrow> None
                | Some date \<Rightarrow> if date > now e then Some (now e) else Some date))"

text \<open>\<open>isOlderThan\<close>: the cutoff is the clock moved back by \<open>days\<close> calendar days, taken as
  days of 86400000 milliseconds.\<close>

definition isOlderThan :: "env \<Rightarrow> int \<Rightarrow> int \<Rightarrow> bool" where
  "isOlderThan e date days = (date < now e - days * 86400000)"

datatype reject_reason =
  missing_link | missing_or_short_title | invalid_url | insufficient_content | too_old

definition normalizeItem :: "env \<Rightarrow> RSSItem \<Rightarrow> string \<Rightarrow> string \<Rightarrow> reject_reason + NormalizedArticle" where
  "normalizeItem e item srcId srcName =
     (case link item of
        None \<Rightarrow> Inl missing_link
      | Some lnk \<Rightarrow>
        if lnk = [] then Inl missing_link
        else (case item_title item of
          None \<Rightarrow> Inl missing_or_short_title
        | Some ttl \<Rightarrow>
          if ttl = [] \<or> length (trim ttl) < 5 then Inl missing_or_short_title
          else (case cleanUrl e lnk of
            None \<Rightarrow> Inl invalid_url
          | Some u \<Rightarrow>
            if u = [] then Inl invalid_url
            else (case extractLede item of
              None \<Rightarrow> Inl insufficient_content
            | Some ld \<Rightarrow>
              if ld = [] \<or> length ld < 30 then Inl insufficient_content
              else
                (let published = parseDate e (or_else (pubDate item) (isoDate item))
                 in if (case published of None \<Rightarrow> False | Some d \<Rightarrow> isOlderThan e d 7)
                    then Inl too_old
                    else Inr \<lparr> sourceId = srcId,
                               externalId = or_else (guid item) (Some u),
                               url = u,
                               urlHash = hashUrl e u,
                               title = cleanText ttl,
                               lede = Some (cleanText ld),
                               fullText = (if truthy (content item)
                                           then map_option cleanText (content item) else None),
                               author = or_null (or_else (item_author item) (creator item)),
                               publishedAt = published \<rparr>)))))"

record NormalizationResult =
  norm_articles :: "NormalizedArticle list"
  norm_skipped :: nat
  norm_reasons :: "reject_reason \<rightharpoonup> nat"

definition normalize_step ::
  "env \<Rightarrow> string \<Rightarrow> string \<Rightarrow> NormalizationResult \<Rightarrow> RSSItem \<Rightarrow> NormalizationResult" where
  "normalize_step e srcId srcName acc item =
     (case normalizeItem e item srcId srcName of
        Inr article \<Rightarrow> acc\<lparr> norm_articles := norm_articles acc @ [article] \<rparr>
      | Inl reason \<Rightarrow>
          acc\<lparr> norm_skipped := Suc (norm_skipped acc),
               norm_reasons := (norm_reasons acc)(reason \<mapsto>
                  (case norm_reasons acc reason of None \<Rightarrow> 0 | Some n \<Rightarrow> n) + 1) \<rparr>)"

definition normalizeItems :: "env \<Rightarrow> RSSItem list \<Rightarrow> string \<Rightarrow> string \<Rightarrow> NormalizationResult" where
  "normalizeItems e items srcId srcName =
     foldl (normalize_step e srcId srcName)
       \<lparr> norm_articles = [], norm_skipped = 0, norm_reasons = Map.empty \<rparr> items"

section \<open>Fetch worker (rss-scan.worker.ts)\<close>

text \<open>
  \<open>processRssScan\<close> from the fetch result on. The scan-log entry, the source's timestamp and
  error fields, the progress reports and the log lines are not modelled: none of them reads or
  writes the articles table, the cache or the classification queue.
\<close>

record FetchResult =
  fetch_success :: bool
  fetch_feed :: "RSSItem list option"
  fetch_itemCount :: nat
  fetch_error :: "string option"

record RssScanResult =
  res_fetched :: nat
  res_normalized :: nat
  res_newArticles :: nat
  res_duplicates :: nat
  res_queued :: nat
  res_errors :: "string list"

definition addAiAnalysisJob :: "env \<Rightarrow> world \<Rightarrow> AiAnalysisJobData \<Rightarrow> world \<times> (thrown + unit)" where
  "addAiAnalysisJob e w d =
     (case queue_add_error e d of
        Some err \<Rightarrow> (w, Inl err)
      | None \<Rightarrow> (w\<lparr> ai_queue := ai_queue w @ [d] \<rparr>, Inr ()))"

text \<open>The \<open>catch\<close> of the per-article \<open>try\<close>: the message of the thrown value, and the error
  list with the message appended unless it contains \<open>duplicate key\<close>.\<close>

definition insert_error_message :: "thrown \<Rightarrow> string" where
  "insert_error_message t = (case t of ErrorObj m \<Rightarrow> m | NonError \<Rightarrow> ''Unknown insert error'')"

definition catch_insert_error :: "string \<Rightarrow> thrown \<Rightarrow> string list \<Rightarrow> string list" where
  "catch_insert_error u err errors =
     (let errorMsg = insert_error_message err
      in if \<not> str_includes errorMsg ''duplicate key''
         then errors @ [''Insert error for '' @ u @ '': '' @ errorMsg]
         else errors)"

record loop_state =
  ls_world :: world
  ls_inserted :: "nat list"
  ls_queued :: nat
  ls_errors :: "string list"

text \<open>One turn of the loop \<open>for (const article of dedupeResult.newArticles)\<close>.\<close>

definition insert_step ::
  "env \<Rightarrow> string \<Rightarrow> TopicForMatching list \<Rightarrow> loop_state \<Rightarrow> NormalizedArticle \<Rightarrow> loop_state" where
  "insert_step e srcName topicsForMatching st article =
     (case create e (ls_world st) article of
        (w1, Inl err) \<Rightarrow>
          st\<lparr> ls_world := w1, ls_errors := catch_insert_error (url article) err (ls_errors st) \<rparr>
      | (w1, Inr None) \<Rightarrow> st\<lparr> ls_world := w1 \<rparr>
      | (w1, Inr (Some created)) \<Rightarrow>
          (let st1 = st\<lparr> ls_world := w1, ls_inserted := ls_inserted st @ [art_id created] \<rparr>;
               matchedTopicIds = checkAgainstTopics article topicsForMatching
           in if length matchedTopicIds > 0 then
                (case addAiAnalysisJob e w1
                        \<lparr> job_articleId = art_id created, job_title = title article,
                          job_lede = lede_or_empty article, job_sourceName = srcName,
                          job_url = url article, job_topicIds = matchedTopicIds \<rparr> of
                   (w2, Inl err) \<Rightarrow>
                     st1\<lparr> ls_world := w2,
                          ls_errors := catch_insert_error (url article) err (ls_errors st1) \<rparr>
                 | (w2, Inr u) \<Rightarrow> st1\<lparr> ls_world := w2, ls_queued := Suc (ls_queued st1) \<rparr>)
              else st1))"

definition insert_loop ::
  "env \<Rightarrow> string \<Rightarrow> TopicForMatching list \<Rightarrow> world \<Rightarrow> NormalizedArticle list \<Rightarrow> loop_state" where
  "insert_loop e srcName topicsForMatching w arts =
     foldl (insert_step e srcName topicsForMatching)
       \<lparr> ls_world = w, ls_inserted = [], ls_queued = 0, ls_errors = [] \<rparr> arts"

definition processRssScan ::
  "env \<Rightarrow> world \<Rightarrow> FetchResult \<Rightarrow> string \<Rightarrow> string \<Rightarrow> TopicForMatching list
     \<Rightarrow> world \<times> (thrown + RssScanResult)" where
  "processRssScan e w fetchResult srcId srcName activeTopics =
     (case (if fetch_success fetchResult then fetch_feed fetchResult else None) of
        None \<Rightarrow>
          (w, Inr \<lparr> res_fetched = 0, res_normalized = 0, res_newArticles = 0, res_duplicates = 0,
                    res_queued = 0,
                    res_errors = [''Fetch failed: '' @
                       (case fetch_error fetchResult of None \<Rightarrow> ''undefined'' | Some m \<Rightarrow> m)] \<rparr>)
      | Some items \<Rightarrow>
          (let normalizeResult = normalizeItems e items srcId srcName
           in case filterDuplicates e w (norm_articles normalizeResult) of
                (w1, Inl err) \<Rightarrow> (w1, Inl err)
              | (w1, Inr dedupeResult) \<Rightarrow>
                  (let st = insert_loop e srcName activeTopics w1 (newArticles dedupeResult)
                   in case markBatchAsStored e (ls_world st) (map url (newArticles dedupeResult)) of
                        (w3, Inl err) \<Rightarrow> (w3, Inl err)
                      | (w3, Inr u) \<Rightarrow>
                          (w3, Inr \<lparr> res_fetched = fetch_itemCount fetchResult,
                                     res_normalized = length (norm_articles normalizeResult),
                                     res_newArticles = length (newArticles dedupeResult),
                                     res_duplicates = duplicates dedupeResult,
                                     res_queued = ls_queued st,
                                     res_errors = ls_errors st \<rparr>))))"

section \<open>Retry engine (retry.ts)\<close>













section \<open>Circuit breaker (retry.ts)\<close>

datatype breaker_state = st_closed | st_open | st_half_open

record CircuitBreaker =
  failures :: nat
  lastFailure :: "int option"
  state :: breaker_state
  threshold :: nat
  resetTimeoutMs :: int

definition new_CircuitBreaker :: "nat \<Rightarrow> int \<Rightarrow> CircuitBreaker" where
  "new_CircuitBreaker th rt =
     \<lparr> failures = 0, lastFailure = None, state = st_closed, threshold = th, resetTimeoutMs = rt \<rparr>"

definition recordFailure :: "CircuitBreaker \<Rightarrow> int \<Rightarrow> CircuitBreaker" where
  "recordFailure cb t =
     (let cb1 = cb\<lparr> failures := failures cb + 1, lastFailure := Some t \<rparr>
      in if failures cb1 \<ge> threshold cb1 then cb1\<lparr> state := st_open \<rparr> else cb1)"

definition reset :: "CircuitBreaker \<Rightarrow> CircuitBreaker" where
  "reset cb = cb\<lparr> failures := 0, lastFailure := None, state := st_closed \<rparr>"

text \<open>
  One \<open>execute\<close>: \<open>t\<close> is \<open>Date.now()\<close> at the call, \<open>operation\<close> is what the wrapped operation
  does if it is invoked (its result or what it throws, and \<open>Date.now()\<close> when it throws).
  The result says what \<open>execute\<close> returned or threw and whether the operation was invoked.
\<close>

record 'a breaker_result =
  br_breaker :: CircuitBreaker
  br_outcome :: "thrown + 'a"
  br_invoked :: bool

definition execute :: "CircuitBreaker \<Rightarrow> int \<Rightarrow> (thrown \<times> int) + 'a \<Rightarrow> 'a breaker_result" where
  "execute cb t operation =
     (if state cb = st_open
         \<and> \<not> (t - (case lastFailure cb of None \<Rightarrow> 0 | Some l \<Rightarrow> l) > resetTimeoutMs cb)
      then \<lparr> br_breaker = cb, br_outcome = Inl (ErrorObj ''Circuit breaker is open''),
             br_invoked = False \<rparr>
      else
        (let cb1 = (if state cb = st_open then cb\<lparr> state := st_half_open \<rparr> else cb)
         in case operation of
              Inr result \<Rightarrow>
                \<lparr> br_breaker = (if state cb1 = st_half_open then reset cb1 else cb1),
                  br_outcome = Inr result, br_invoked = True \<rparr>
            | Inl (err, t') \<Rightarrow>
                \<lparr> br_breaker = recordFailure cb1 t', br_outcome = Inl err, br_invoked = True \<rparr>))"

text \<open>A sequence of calls through one breaker: each call has its time and the behaviour of
  the operation.\<close>

fun execute_all :: "CircuitBreaker \<Rightarrow> (int \<times> ((thrown \<times> int) + 'a)) list \<Rightarrow> CircuitBreaker" where
  "execute_all cb [] = cb"
| "execute_all cb ((t, operation) # calls) = execute_all (br_breaker (execute cb t operation)) calls"

section \<open>Cleanup scan (scan-orchestrator.worker.ts)\<close>

definition DAY_MS :: int where
  "DAY_MS = 86400000"

text \<open>
  The three \<open>DELETE\<close> statements of \<open>runCleanup\<close>, each returning the table that is left and
  the row count. \<open>NOW() - INTERVAL 'n days'\<close> is the clock less \<open>n\<close> days of 86400000
  milliseconds; \<open>CURRENT_DATE\<close> is the day number of the clock.
\<close>

definition article_expired :: "env \<Rightarrow> Article \<Rightarrow> bool" where
  "article_expired e a =
     ((art_status a = irrelevant \<or> art_status a = error_status)
      \<and> art_created_at a < now e - 90 * DAY_MS)"

definition scan_log_expired :: "env \<Rightarrow> ScanLog \<Rightarrow> bool" where
  "scan_log_expired e l = (log_started_at l < now e - 30 * DAY_MS)"

definition daily_summary_expired :: "env \<Rightarrow> DailySummary \<Rightarrow> bool" where
  "daily_summary_expired e d = (summary_date d < now e div DAY_MS - 90)"

definition runCleanup :: "env \<Rightarrow> world \<Rightarrow> world \<times> (thrown + nat)" where
  "runCleanup e w =
     (case db_delete_error e ''articles'' of
        Some err \<Rightarrow> (w, Inl err)
      | None \<Rightarrow>
          (let w1 = w\<lparr> articles_tbl := filter (\<lambda>a. \<not> article_expired e a) (articles_tbl w) \<rparr>;
               totalDeleted1 = 0 + length (filter (article_expired e) (articles_tbl w))
           in case db_delete_error e ''scan_logs'' of
                Some err \<Rightarrow> (w1, Inl err)
              | None \<Rightarrow>
                  (let w2 = w1\<lparr> scan_logs_tbl :=
                                   filter (\<lambda>l. \<not> scan_log_expired e l) (scan_logs_tbl w1) \<rparr>;
                       totalDeleted2 =
                         totalDeleted1 + length (filter (scan_log_expired e) (scan_logs_tbl w1))
                   in case db_delete_error e ''daily_summaries'' of
                        Some err \<Rightarrow> (w2, Inl err)
                      | None \<Rightarrow>
                          (w2\<lparr> daily_summaries_tbl :=
                                 filter (\<lambda>d. \<not> daily_summary_expired e d) (daily_summaries_tbl w2) \<rparr>,
                           Inr (totalDeleted2
                                + length (filter (daily_summary_expired e) (daily_summaries_tbl w2)))))))"

record OrchestratorResult =
  orch_sourcesProcessed :: nat
  orch_jobsQueued :: nat
  orch_errors :: "string list"

text \<open>The \<open>case 'cleanup'\<close> of \<open>processScanOrchestrator\<close>.\<close>

definition processScanOrchestrator_cleanup :: "env \<Rightarrow> world \<Rightarrow> world \<times> (thrown + OrchestratorResult)" where
  "processScanOrchestrator_cleanup e w =
     (case runCleanup e w of
        (w', Inl err) \<Rightarrow> (w', Inl err)
      | (w', Inr itemsDeleted) \<Rightarrow>
          (w', Inr \<lparr> orch_sourcesProcessed = itemsDeleted, orch_jobsQueued = 0, orch_errors = [] \<rparr>))"

section \<open>Multi-topic relevance analysis (relevance-analyzer.service.ts)\<close>
















section \<open>Rate limiter (rate-limiter.ts)\<close>

record RateLimiter =
  tokens :: int
  maxTokens :: int
  interval :: int
  lastRefill :: int

definition new_RateLimiter :: "int \<Rightarrow> int \<Rightarrow> int \<Rightarrow> RateLimiter" where
  "new_RateLimiter tokensPerInterval intervalMs t =
     \<lparr> tokens = tokensPerInterval, maxTokens = tokensPerInterval, interval = intervalMs,
       lastRefill = t \<rparr>"

text \<open>\<open>refillTokens\<close> at time \<open>t\<close>; the quotient is taken exactly, for a positive interval
  and capacity.\<close>

definition refillTokens :: "RateLimiter \<Rightarrow> int \<Rightarrow> RateLimiter" where
  "refillTokens rl t =
     (let elapsed = t - lastRefill rl;
          tokensToAdd = \<lfloor>(real_of_int elapsed / real_of_int (interval rl)) * real_of_int (maxTokens rl)\<rfloor>
      in if tokensToAdd > 0
         then rl\<lparr> tokens := min (maxTokens rl) (tokens rl + tokensToAdd), lastRefill := t \<rparr>
         else rl)"

text \<open>
  \<open>waitForToken\<close> up to its \<open>await\<close>: either the token is taken at once, or the caller goes to
  sleep for \<open>interval / maxTokens\<close>. Then what it does when the sleep is over, at time \<open>t\<close>.
\<close>

datatype acquire = Acquired RateLimiter | Sleeps RateLimiter real

definition waitForToken_start :: "RateLimiter \<Rightarrow> int \<Rightarrow> acquire" where
  "waitForToken_start rl t =
     (let rl1 = refillTokens rl t
      in if tokens rl1 > 0 then Acquired (rl1\<lparr> tokens := tokens rl1 - 1 \<rparr>)
         else Sleeps rl1 ((real_of_int (interval rl1) / real_of_int (maxTokens rl1)) * 1))"

definition waitForToken_resume :: "RateLimiter \<Rightarrow> int \<Rightarrow> RateLimiter" where
  "waitForToken_resume rl t = (let rl1 = refillTokens rl t in rl1\<lparr> tokens := tokens rl1 - 1 \<rparr>)"

text \<open>
  Calls issued one after the other at the same instant \<open>t\<close>, none awaited before the next is
  made: each runs up to its \<open>await\<close>, in order. The result is the limiter and, per call,
  \<open>None\<close> if it resolved at once or the delay it sleeps.
\<close>

fun start_all :: "RateLimiter \<Rightarrow> int \<Rightarrow> nat \<Rightarrow> RateLimiter \<times> real option list" where
  "start_all rl t 0 = (rl, [])"
| "start_all rl t (Suc n) =
     (case waitForToken_start rl t of
        Acquired rl1 \<Rightarrow> (case start_all rl1 t n of (rl2, ws) \<Rightarrow> (rl2, None # ws))
      | Sleeps rl1 d \<Rightarrow> (case start_all rl1 t n of (rl2, ws) \<Rightarrow> (rl2, Some d # ws)))"

text \<open>Then the timers fire, in the order they were set, each when its delay is over (at the
  first whole millisecond); the result is the limiter and the time each call resolved.\<close>

fun resume_all :: "RateLimiter \<Rightarrow> int \<Rightarrow> real option list \<Rightarrow> RateLimiter \<times> int list" where
  "resume_all rl t [] = (rl, [])"
| "resume_all rl t (None # ws) = (case resume_all rl t ws of (rl1, ts) \<Rightarrow> (rl1, t # ts))"
| "resume_all rl t (Some d # ws) =
     (let rl1 = waitForToken_resume rl (t + \<lceil>d\<rceil>)
      in case resume_all rl1 t ws of (rl2, ts) \<Rightarrow> (rl2, (t + \<lceil>d\<rceil>) # ts))"

definition burst :: "RateLimiter \<Rightarrow> int \<Rightarrow> nat \<Rightarrow> RateLimiter \<times> int list" where
  "burst rl t n = (case start_all rl t n of (rl1, ws) \<Rightarrow> resume_all rl1 t ws)"

text \<open>Calls made one after the other, each awaited before the next is made and the next made
  the moment the previous one resolves: the limiter and the time each call resolved.\<close>

fun awaited :: "RateLimiter \<Rightarrow> int \<Rightarrow> nat \<Rightarrow> RateLimiter \<times> int list" where
  "awaited rl t 0 = (rl, [])"
| "awaited rl t (Suc n) =
     (case waitForToken_start rl t of
        Acquired rl1 \<Rightarrow> (case awaited rl1 t n of (rl2, ts) \<Rightarrow> (rl2, t # ts))
      | Sleeps rl1 d \<Rightarrow>
          (case awaited (waitForToken_resume rl1 (t + \<lceil>d\<rceil>)) (t + \<lceil>d\<rceil>) n of
             (rl2, ts) \<Rightarrow> (rl2, (t + \<lceil>d\<rceil>) # ts)))"

section \<open>Vocabulary of the properties\<close>

text \<open>How the cache classifies an article, given the result of the batch cache probe.\<close>

definition cache_new :: "(string \<rightharpoonup> cache_state) \<Rightarrow> NormalizedArticle \<Rightarrow> bool" where
  "cache_new cr a = (cr (urlHash a) = Some New)"

definition cache_exists :: "(string \<rightharpoonup> cache_state) \<Rightarrow> NormalizedArticle \<Rightarrow> bool" where
  "cache_exists cr a = (cr (urlHash a) = Some Exists)"

definition cache_unknown :: "(string \<rightharpoonup> cache_state) \<Rightarrow> NormalizedArticle \<Rightarrow> bool" where
  "cache_unknown cr a = (\<not> cache_new cr a \<and> \<not> cache_exists cr a)"

text \<open>The content hash has a row in the articles table.\<close>

definition stored :: "world \<Rightarrow> string \<Rightarrow> bool" where
  "stored w h = list_ex (\<lambda>a. art_url_hash a = h) (articles_tbl w)"







text \<open>Vocabulary of the circuit breaker: the time since the last recorded failure, as
  \<open>execute\<close> computes it; and the invariant of a breaker between calls (never half-open, and
  open only with at least \<open>threshold\<close> failures counted).\<close>

definition since_last_failure :: "CircuitBreaker \<Rightarrow> int \<Rightarrow> int" where
  "since_last_failure cb t = t - (case lastFailure cb of None \<Rightarrow> 0 | Some l \<Rightarrow> l)"

definition breaker_ok :: "CircuitBreaker \<Rightarrow> bool" where
  "breaker_ok cb = (state cb \<noteq> st_half_open \<and> (state cb \<noteq> st_open \<or> threshold cb \<le> failures cb))"















definition accepted :: "env \<Rightarrow> string \<Rightarrow> string \<Rightarrow> RSSItem list \<Rightarrow> NormalizedArticle list" where
  "accepted e sid sn items =
     concat (map (\<lambda>item. case normalizeItem e item sid sn of Inl r \<Rightarrow> [] | Inr a \<Rightarrow> [a]) items)"



text \<open>Vocabulary of the store: the number of rows with a content hash, and the
  uniqueness constraint on \<open>url_hash\<close>.\<close>

definition rows_with_hash :: "world \<Rightarrow> string \<Rightarrow> nat" where
  "rows_with_hash w h = length (filter (\<lambda>a. art_url_hash a = h) (articles_tbl w))"

definition unique_hashes :: "world \<Rightarrow> bool" where
  "unique_hashes w = distinct (map art_url_hash (articles_tbl w))"

section \<open>Sample inputs\<close>

text \<open>An environment in which no external call throws; the digest is the identity, every
  URL is its own \<open>href\<close>, and no date string parses.\<close>

definition quiet_env :: env where
  "quiet_env =
     \<lparr> hashUrl = (\<lambda>u. u), now = 1000 * DAY_MS, url_href = (\<lambda>u. Some u),
       date_parse = (\<lambda>s. None), db_insert_error = (\<lambda>u. None), db_select_error = (\<lambda>b. None),
       db_delete_error = (\<lambda>t. None), redis_mget_fails = False, redis_setex_fails = (\<lambda>k. False),
       redis_pipeline_error = None, queue_add_error = (\<lambda>j. None) \<rparr>"

definition empty_world :: world where
  "empty_world =
     \<lparr> articles_tbl = [], next_article_id = 0, scan_logs_tbl = [], daily_summaries_tbl = [],
       redis = Map.empty, ai_queue = [], rss_queue = [] \<rparr>"

text \<open>A candidate article of source \<open>s1\<close> with the given URL, title and lede, hashed by the
  identity digest.\<close>

definition candidate :: "string \<Rightarrow> string \<Rightarrow> string \<Rightarrow> NormalizedArticle" where
  "candidate u t l =
     \<lparr> sourceId = ''s1'', externalId = Some u, url = u, urlHash = u, title = t, lede = Some l,
       fullText = None, author = None, publishedAt = None \<rparr>"

text \<open>A world whose cache already holds \<open>new\<close> for the second of two sample URLs.\<close>

definition cached_world :: world where
  "cached_world =
     empty_world\<lparr> redis := [REDIS_KEY_PREFIX @ ''https://b.example/2'' \<mapsto> (''new'', CACHE_TTL_SECONDS)] \<rparr>"

definition article_one :: NormalizedArticle where
  "article_one = candidate ''https://a.example/1'' ''First title'' ''first lede''"

definition article_two :: NormalizedArticle where
  "article_two = candidate ''https://b.example/2'' ''Second title'' ''second lede''"

definition topic_A :: TopicForMatching where
  "topic_A = \<lparr> topic_id = ''A'', topic_keywords = [''budget'', ''TITLE''] \<rparr>"


text \<open>The state of the insert loop before its first turn, on the empty world.\<close>

definition fresh_loop :: loop_state where
  "fresh_loop = \<lparr> ls_world = empty_world, ls_inserted = [], ls_queued = 0, ls_errors = [] \<rparr>"






text \<open>A failure of a feed, and a breaker of threshold 2 and cool-down 60000 ms after two
  failing calls.\<close>

definition feed_down :: thrown where
  "feed_down = ErrorObj ''ECONNREFUSED''"

definition tripped_breaker :: CircuitBreaker where
  "tripped_breaker =
     execute_all (new_CircuitBreaker 2 60000)
       [(0, Inl (feed_down, 1) :: (thrown \<times> int) + unit), (5, Inl (feed_down, 6))]"

text \<open>A row of the articles table with the given identifier, status and age in days at the
  clock of the quiet environment.\<close>

definition stored_row :: "nat \<Rightarrow> ArticleStatus \<Rightarrow> int \<Rightarrow> Article" where
  "stored_row i st age =
     \<lparr> art_id = i, art_source_id = ''s1'', art_external_id = None,
       art_url = ''https://a.example/old'', art_url_hash = ''https://a.example/old'',
       art_title = ''An old article'', art_lede = None, art_full_text = None, art_author = None,
       art_published_at = None, art_status = st, art_created_at = (1000 - age) * DAY_MS \<rparr>"

text \<open>The world of tables aged against the clock of the quiet environment, and a world
  with one article that has been pending for 100 days.\<close>

definition aged_world :: world where
  "aged_world =
     empty_world\<lparr> articles_tbl := [stored_row 1 irrelevant 100, stored_row 2 relevant 100,
                                    stored_row 3 irrelevant 10],
                   scan_logs_tbl := [\<lparr> log_id = 1, log_started_at = 960 * DAY_MS \<rparr>,
                                     \<lparr> log_id = 2, log_started_at = 990 * DAY_MS \<rparr>],
                   daily_summaries_tbl := [\<lparr> sum_id = 1, summary_date = 900 \<rparr>,
                                           \<lparr> sum_id = 2, summary_date = 950 \<rparr>] \<rparr>"

definition pending_world :: world where
  "pending_world = empty_world\<lparr> articles_tbl := [stored_row 1 pending 100] \<rparr>"





text \<open>A feed entry with a link, a title and a description only, as the fetcher hands it
  over (its \<open>guid\<close> falls back to the link, its content and summary to the description); a
  successful fetch; an item without a link; an item whose title is one letter inside a
  tag; and the candidate article made from such an entry.\<close>

definition feed_item :: "string option \<Rightarrow> string option \<Rightarrow> string option \<Rightarrow> RSSItem" where
  "feed_item l t d =
     \<lparr> guid = l, item_title = t, link = l, pubDate = None, isoDate = None,
       creator = None, item_author = None, content = d, contentSnippet = None,
       summary = d, description = d \<rparr>"

definition feed_candidate :: "string \<Rightarrow> string \<Rightarrow> string \<Rightarrow> NormalizedArticle" where
  "feed_candidate u t l = (candidate u t l)\<lparr> fullText := Some l \<rparr>"

definition fetched :: "RSSItem list \<Rightarrow> FetchResult" where
  "fetched items =
     \<lparr> fetch_success = True, fetch_feed = Some items, fetch_itemCount = length items,
       fetch_error = None \<rparr>"



text \<open>An environment in which every insert fails with the duplicate-key message of the
  store, and the world after the first sample article has been inserted once.\<close>

definition racing_env :: env where
  "racing_env =
     quiet_env\<lparr> db_insert_error :=
       (\<lambda>u. Some (ErrorObj ''duplicate key value violates unique constraint'')) \<rparr>"

definition stored_once :: world where
  "stored_once = fst (create quiet_env empty_world article_one)"

text \<open>An environment in which every insert fails with a connection error; a feed item
  that passes every rule; and the empty world with \<open>exists\<close> cached for the item's URL.\<close>

definition broken_env :: env where
  "broken_env =
     quiet_env\<lparr> db_insert_error := (\<lambda>u. Some (ErrorObj ''Connection terminated'')) \<rparr>"

definition plain_item :: RSSItem where
  "plain_item =
     feed_item (Some ''https://a.example/1'') (Some ''Taxes'')
       (Some ''La mairie exige un formulaire.'')"

definition poisoned_world :: world where
  "poisoned_world =
     empty_world\<lparr> redis :=
       [REDIS_KEY_PREFIX @ ''https://a.example/1'' \<mapsto> (''exists'', CACHE_TTL_SECONDS)] \<rparr>"

section \<open>Deduplicator: the partition of a batch\<close>

lemma cache_step_cases:
  "cache_step cr (new, dups, hits, need) a =
     (if cache_exists cr a then (new, Suc dups, Suc hits, need)
      else if cache_new cr a then (new @ [a], dups, Suc hits, need)
      else (new, dups, hits, need @ [a]))"
  by (auto simp: cache_step_def cache_exists_def cache_new_def split: option.splits cache_state.splits)

lemma cache_loop:
  "foldl (cache_step cr) (new, dups, hits, need) arts =
     (new @ filter (cache_new cr) arts,
      dups + length (filter (cache_exists cr) arts),
      hits + length (filter (\<lambda>a. cache_exists cr a \<or> cache_new cr a) arts),
      need @ filter (cache_unknown cr) arts)"
proof (induction arts arbitrary: new dups hits need)
  case Nil
  show ?case by simp
next
  case (Cons a arts)
  show ?case
    by (simp add: cache_step_cases Cons.IH cache_unknown_def)
       (auto simp: cache_exists_def cache_new_def)
qed

lemma db_loop:
  "\<exists>w'. foldl (db_step e dbr) (w, new, dups) arts =
     (w', new @ filter (\<lambda>a. urlHash a \<notin> set dbr) arts,
      dups + length (filter (\<lambda>a. urlHash a \<in> set dbr) arts))"
proof (induction arts arbitrary: w new dups)
  case Nil
  show ?case by simp
next
  case (Cons a arts)
  show ?case
  proof (cases "urlHash a \<in> set dbr")
    case True
    then have "db_step e dbr (w, new, dups) a = (cacheUrlHash e w (urlHash a) True, new, Suc dups)"
      by (simp add: db_step_def)
    with True Cons.IH [of "cacheUrlHash e w (urlHash a) True" new "Suc dups"] show ?thesis by simp
  next
    case False
    then have "db_step e dbr (w, new, dups) a = (cacheUrlHash e w (urlHash a) False, new @ [a], dups)"
      by (simp add: db_step_def)
    with False Cons.IH [of "cacheUrlHash e w (urlHash a) False" "new @ [a]" dups] show ?thesis by simp
  qed
qed

lemma three_way:
  "length (filter (cache_new cr) arts) + length (filter (cache_exists cr) arts)
     + length (filter (cache_unknown cr) arts) = length arts"
  by (induction arts) (auto simp: cache_unknown_def cache_new_def cache_exists_def)

lemma hits_plus_unknown:
  "length (filter (\<lambda>a. cache_exists cr a \<or> cache_new cr a) arts)
     + length (filter (cache_unknown cr) arts) = length arts"
  by (induction arts) (auto simp: cache_unknown_def)

lemma stored_iff: "stored w h \<longleftrightarrow> h \<in> art_url_hash ` set (articles_tbl w)"
  by (auto simp: stored_def list_ex_iff)

lemma db_loop_set:
  "batchCheckDatabase_loop e w rest existing = Inr xs \<Longrightarrow>
     set xs = set existing \<union> {h \<in> set rest. stored w h}"
proof (induction e w rest existing rule: batchCheckDatabase_loop.induct)
  case (1 e w rest existing)
  note unfold = batchCheckDatabase_loop.simps [of e w rest existing]
  show ?case
  proof (cases "rest = []")
    case True
    with "1.prems" unfold show ?thesis by simp
  next
    case False
    with "1.prems" unfold have none: "db_select_error e (take 100 rest) = None"
      by (auto simp: Let_def split: option.splits)
    with False "1.prems" unfold have rec:
      "batchCheckDatabase_loop e w (drop 100 rest) (existing @ select_url_hashes w (take 100 rest)) = Inr xs"
      by (simp add: Let_def)
    have "set xs = set (existing @ select_url_hashes w (take 100 rest))
            \<union> {h \<in> set (drop 100 rest). stored w h}"
      using "1.IH" [OF False refl none rec] .
    moreover have "set (select_url_hashes w (take 100 rest)) = {h \<in> set (take 100 rest). stored w h}"
      by (auto simp: select_url_hashes_def stored_iff)
    moreover have "set rest = set (take 100 rest) \<union> set (drop 100 rest)"
      by (metis append_take_drop_id set_append)
    ultimately show ?thesis by auto
  qed
qed

lemma db_loop_total:
  "(\<forall>b. db_select_error e b = None) \<Longrightarrow> \<exists>xs. batchCheckDatabase_loop e w rest existing = Inr xs"
proof (induction e w rest existing rule: batchCheckDatabase_loop.induct)
  case (1 e w rest existing)
  note unfold = batchCheckDatabase_loop.simps [of e w rest existing]
  show ?case
  proof (cases "rest = []")
    case True
    with unfold show ?thesis by simp
  next
    case False
    from "1.prems" have none: "db_select_error e (take 100 rest) = None" by simp
    from "1.IH" [OF False refl none "1.prems"] none False unfold show ?thesis by (simp add: Let_def)
  qed
qed

lemma batchCheckDatabase_set:
  "batchCheckDatabase e w hs = Inr xs \<Longrightarrow> set xs = {h \<in> set hs. stored w h}"
  using db_loop_set [of e w hs "[]" xs] by (auto simp: batchCheckDatabase_def split: if_splits)

lemma batchCheckDatabase_total:
  "(\<forall>b. db_select_error e b = None) \<Longrightarrow> \<exists>xs. batchCheckDatabase e w hs = Inr xs"
  using db_loop_total [of e w hs "[]"] by (simp add: batchCheckDatabase_def)

text \<open>What \<open>filterDuplicates\<close> returns, in terms of the cache probe and the store.\<close>

lemma filterDuplicates_result:
  assumes "filterDuplicates e w articles = (w', Inr r)"
  shows "r = \<lparr> newArticles =
                 filter (cache_new (batchCheckCache e w (map urlHash articles))) articles
                 @ filter (\<lambda>a. cache_unknown (batchCheckCache e w (map urlHash articles)) a
                              \<and> \<not> stored w (urlHash a)) articles,
               duplicates =
                 length (filter (cache_exists (batchCheckCache e w (map urlHash articles))) articles)
                 + length (filter (\<lambda>a. cache_unknown (batchCheckCache e w (map urlHash articles)) a
                                       \<and> stored w (urlHash a)) articles),
               cacheHits =
                 length (filter (\<lambda>a. cache_exists (batchCheckCache e w (map urlHash articles)) a
                                     \<or> cache_new (batchCheckCache e w (map urlHash articles)) a) articles),
               dbChecks =
                 length (filter (cache_unknown (batchCheckCache e w (map urlHash articles))) articles) \<rparr>"
proof -
  let ?cr = "batchCheckCache e w (map urlHash articles)"
  let ?need = "filter (cache_unknown ?cr) articles"
  have loop1: "foldl (cache_step ?cr) ([], 0, 0, []) articles =
      (filter (cache_new ?cr) articles, length (filter (cache_exists ?cr) articles),
       length (filter (\<lambda>a. cache_exists ?cr a \<or> cache_new ?cr a) articles), ?need)"
    using cache_loop [of ?cr "[]" 0 0 "[]" articles] by simp
  show ?thesis
  proof (cases "?need = []")
    case True
    have "filter (\<lambda>a. cache_unknown ?cr a \<and> P a) articles = []" for P
      using True by (auto simp: filter_empty_conv)
    with assms loop1 True show ?thesis
      by (auto simp: filterDuplicates_def Let_def)
  next
    case False
    with assms loop1 obtain dbr where
      dbr: "batchCheckDatabase e w (map urlHash ?need) = Inr dbr"
      by (auto simp: filterDuplicates_def Let_def split: sum.splits)
    from db_loop [of e dbr w "filter (cache_new ?cr) articles"
                     "length (filter (cache_exists ?cr) articles)" ?need]
    obtain w2 where loop2:
      "foldl (db_step e dbr) (w, filter (cache_new ?cr) articles,
              length (filter (cache_exists ?cr) articles)) ?need =
         (w2, filter (cache_new ?cr) articles @ filter (\<lambda>a. urlHash a \<notin> set dbr) ?need,
          length (filter (cache_exists ?cr) articles)
            + length (filter (\<lambda>a. urlHash a \<in> set dbr) ?need))"
      by blast
    have mem: "urlHash a \<in> set dbr \<longleftrightarrow> stored w (urlHash a)"
      if "cache_unknown ?cr a" "a \<in> set articles" for a
      using batchCheckDatabase_set [OF dbr] that by auto
    have f1: "filter (\<lambda>a. cache_unknown ?cr a \<and> urlHash a \<notin> set dbr) articles
                = filter (\<lambda>a. cache_unknown ?cr a \<and> \<not> stored w (urlHash a)) articles"
      by (rule filter_cong) (auto simp: mem)
    have f2: "filter (\<lambda>a. cache_unknown ?cr a \<and> urlHash a \<in> set dbr) articles
                = filter (\<lambda>a. cache_unknown ?cr a \<and> stored w (urlHash a)) articles"
      by (rule filter_cong) (auto simp: mem)
    from assms loop1 False dbr loop2 have
      "r = \<lparr> newArticles = filter (cache_new ?cr) articles @ filter (\<lambda>a. urlHash a \<notin> set dbr) ?need,
             duplicates = length (filter (cache_exists ?cr) articles)
                            + length (filter (\<lambda>a. urlHash a \<in> set dbr) ?need),
             cacheHits = length (filter (\<lambda>a. cache_exists ?cr a \<or> cache_new ?cr a) articles),
             dbChecks = length ?need \<rparr>"
      by (auto simp: filterDuplicates_def Let_def)
    then show ?thesis by (simp add: f1 f2)
  qed
qed

lemma filterDuplicates_total:
  assumes "\<forall>b. db_select_error e b = None"
  shows "\<exists>w' r. filterDuplicates e w articles = (w', Inr r)"
proof -
  let ?cr = "batchCheckCache e w (map urlHash articles)"
  obtain new dups hits need where
    loop1: "foldl (cache_step ?cr) ([], 0, 0, []) articles = (new, dups, hits, need)"
    by (metis prod_cases4)
  obtain dbr where dbr: "batchCheckDatabase e w (map urlHash need) = Inr dbr"
    using batchCheckDatabase_total [OF assms] by blast
  obtain w2 new2 dups2 where "foldl (db_step e dbr) (w, new, dups) need = (w2, new2, dups2)"
    by (metis prod_cases3)
  with loop1 dbr show ?thesis
    by (simp add: filterDuplicates_def Let_def)
qed

lemma length_filter_split:
  "length (filter (\<lambda>a. P a \<and> \<not> Q a) xs) + length (filter (\<lambda>a. P a \<and> Q a) xs)
     = length (filter P xs)"
  by (induction xs) auto

lemmas dedup_eval =
  filterDuplicates_def batchCheckCache_def quiet_env_def cached_world_def empty_world_def
  candidate_def article_one_def article_two_def cache_step_def cache_value_state_def
  REDIS_KEY_PREFIX_def batchCheckDatabase_def batchCheckDatabase_loop.simps select_url_hashes_def
  db_step_def cacheUrlHash_def Let_def

text \<open>
  C10, as amended. Whenever \<open>filterDuplicates\<close> returns, every article of the batch has been
  classified exactly once: \<open>newArticles.length + duplicates\<close> and \<open>cacheHits + dbChecks\<close> both
  equal the length of the input. \<open>newArticles\<close> is the articles the cache reports as new, in
  input order, followed by the articles the cache does not know and the store does not hold,
  in input order; each of the two parts is an order-preserving subsequence of the input. And
  \<open>filterDuplicates\<close> does return whenever the store's batch query does not fail.
\<close>

theorem filterDuplicates_partition:
  "(\<forall>w' r. filterDuplicates e w articles = (w', Inr r) \<longrightarrow>
       length (newArticles r) + duplicates r = length articles
     \<and> cacheHits r + dbChecks r = length articles
     \<and> newArticles r =
         filter (cache_new (batchCheckCache e w (map urlHash articles))) articles
         @ filter (\<lambda>a. cache_unknown (batchCheckCache e w (map urlHash articles)) a
                      \<and> \<not> stored w (urlHash a)) articles
     \<and> subseq (filter (cache_new (batchCheckCache e w (map urlHash articles))) articles) articles
     \<and> subseq (filter (\<lambda>a. cache_unknown (batchCheckCache e w (map urlHash articles)) a
                      \<and> \<not> stored w (urlHash a)) articles) articles)
   \<and> ((\<forall>b. db_select_error e b = None) \<longrightarrow> (\<exists>w' r. filterDuplicates e w articles = (w', Inr r)))"
proof (intro conjI allI impI)
  fix w' r
  assume run: "filterDuplicates e w articles = (w', Inr r)"
  let ?cr = "batchCheckCache e w (map urlHash articles)"
  note res = filterDuplicates_result [OF run]
  have na: "newArticles r = filter (cache_new ?cr) articles
              @ filter (\<lambda>a. cache_unknown ?cr a \<and> \<not> stored w (urlHash a)) articles"
    using arg_cong [OF res, of newArticles] by simp
  have du: "duplicates r = length (filter (cache_exists ?cr) articles)
              + length (filter (\<lambda>a. cache_unknown ?cr a \<and> stored w (urlHash a)) articles)"
    using arg_cong [OF res, of duplicates] by simp
  have ch: "cacheHits r = length (filter (\<lambda>a. cache_exists ?cr a \<or> cache_new ?cr a) articles)"
    using arg_cong [OF res, of cacheHits] by simp
  have dc: "dbChecks r = length (filter (cache_unknown ?cr) articles)"
    using arg_cong [OF res, of dbChecks] by simp
  have "length (newArticles r) + duplicates r =
          length (filter (cache_new ?cr) articles) + length (filter (cache_exists ?cr) articles)
          + length (filter (cache_unknown ?cr) articles)"
    using length_filter_split [of "cache_unknown ?cr" "\<lambda>a. stored w (urlHash a)" articles]
    by (simp add: na du)
  then show "length (newArticles r) + duplicates r = length articles"
    by (simp add: three_way)
  show "cacheHits r + dbChecks r = length articles"
    by (simp add: ch dc hits_plus_unknown)
  show "newArticles r =
         filter (cache_new ?cr) articles
         @ filter (\<lambda>a. cache_unknown ?cr a \<and> \<not> stored w (urlHash a)) articles"
    by (rule na)
next
  show "subseq (filter (cache_new (batchCheckCache e w (map urlHash articles))) articles) articles"
    by (rule subseq_filter_left)
  show "subseq (filter (\<lambda>a. cache_unknown (batchCheckCache e w (map urlHash articles)) a
                      \<and> \<not> stored w (urlHash a)) articles) articles"
    by (rule subseq_filter_left)
next
  assume "\<forall>b. db_select_error e b = None"
  then show "\<exists>w' r. filterDuplicates e w articles = (w', Inr r)"
    by (rule filterDuplicates_total)
qed

text \<open>The partition at a batch of two: the first article is unknown to the cache and absent
  from the store, the second is cached as \<open>new\<close>.\<close>

theorem filterDuplicates_partition_witness:
  "(\<forall>b. db_select_error quiet_env b = None)
   \<and> (\<exists>w' r. filterDuplicates quiet_env cached_world [article_one, article_two] = (w', Inr r)
        \<and> length (newArticles r) + duplicates r = 2
        \<and> cacheHits r + dbChecks r = 2)"
proof -
  have quiet: "\<forall>b. db_select_error quiet_env b = None"
    by (simp add: quiet_env_def)
  note part = filterDuplicates_partition [of quiet_env cached_world "[article_one, article_two]"]
  from part quiet obtain w' r where
    run: "filterDuplicates quiet_env cached_world [article_one, article_two] = (w', Inr r)"
    by blast
  with part have "length (newArticles r) + duplicates r = length [article_one, article_two]"
    and "cacheHits r + dbChecks r = length [article_one, article_two]"
    by blast+
  with run quiet show ?thesis by auto
qed

text \<open>
  C10 as stated fails: at that batch \<open>newArticles\<close> is the second article followed by the
  first, which is not a subsequence of the input.
\<close>

theorem filterDuplicates_subsequence_counterexample:
  "snd (filterDuplicates quiet_env cached_world [article_one, article_two])
     = Inr \<lparr> newArticles = [article_two, article_one], duplicates = 0, cacheHits = 1, dbChecks = 1 \<rparr>
   \<and> \<not> subseq [article_two, article_one] [article_one, article_two]"
  by (simp add: dedup_eval)

section \<open>Topic matcher\<close>














section \<open>Retry engine\<close>











section \<open>Circuit breaker\<close>

lemma execute_ok: "breaker_ok cb \<Longrightarrow> breaker_ok (br_breaker (execute cb t operation))"
  by (cases operation)
     (auto simp: breaker_ok_def execute_def recordFailure_def reset_def Let_def split: prod.splits)

lemma new_ok: "breaker_ok (new_CircuitBreaker th rt)"
  by (simp add: breaker_ok_def new_CircuitBreaker_def)

lemma execute_all_ok: "breaker_ok cb \<Longrightarrow> breaker_ok (execute_all cb calls)"
  by (induction cb calls rule: execute_all.induct) (simp_all add: execute_ok)

text \<open>
  C5, as amended. The circuit breaker counts the failures of the operations it wraps since
  its last reset, consecutive or not. A success while closed leaves it closed with its
  failure count unchanged; a failure while closed adds one to the count and opens the
  breaker exactly when the count reaches the threshold. While open it fails fast, without
  invoking the operation and without changing, until more than the cool-down has passed
  since the last failure; then one trial call either closes it, with the count reset to
  zero, on success, or reopens it on failure. Between calls a breaker is never half-open,
  and it is open only with at least \<open>threshold\<close> failures counted.
\<close>

theorem breaker_behaviour:
  "(state cb = st_closed \<longrightarrow>
       execute cb t (Inr v) = \<lparr> br_breaker = cb, br_outcome = Inr v, br_invoked = True \<rparr>)
   \<and> (state cb = st_closed \<longrightarrow>
       execute cb t (Inl (err, t')) =
         \<lparr> br_breaker = cb\<lparr> failures := failures cb + 1, lastFailure := Some t',
                             state := (if threshold cb \<le> failures cb + 1 then st_open else st_closed) \<rparr>,
           br_outcome = Inl err, br_invoked = True \<rparr>)
   \<and> (state cb = st_open \<and> since_last_failure cb t \<le> resetTimeoutMs cb \<longrightarrow>
       execute cb t operation =
         \<lparr> br_breaker = cb, br_outcome = Inl (ErrorObj ''Circuit breaker is open''),
           br_invoked = False \<rparr>)
   \<and> (state cb = st_open \<and> since_last_failure cb t > resetTimeoutMs cb \<longrightarrow>
       execute cb t (Inr v) =
         \<lparr> br_breaker = cb\<lparr> failures := 0, lastFailure := None, state := st_closed \<rparr>,
           br_outcome = Inr v, br_invoked = True \<rparr>)
   \<and> (cb = execute_all (new_CircuitBreaker th rt) calls
        \<and> state cb = st_open \<and> since_last_failure cb t > resetTimeoutMs cb \<longrightarrow>
       execute cb t (Inl (err, t')) =
         \<lparr> br_breaker = cb\<lparr> failures := failures cb + 1, lastFailure := Some t', state := st_open \<rparr>,
           br_outcome = Inl err, br_invoked = True \<rparr>)
   \<and> (cb = execute_all (new_CircuitBreaker th rt) calls \<longrightarrow>
        state cb \<noteq> st_half_open \<and> (state cb = st_open \<longrightarrow> threshold cb \<le> failures cb))"
proof (intro conjI impI)
  assume "state cb = st_closed"
  then show "execute cb t (Inr v) = \<lparr> br_breaker = cb, br_outcome = Inr v, br_invoked = True \<rparr>"
    by (simp add: execute_def)
next
  assume "state cb = st_closed"
  then show "execute cb t (Inl (err, t')) =
         \<lparr> br_breaker = cb\<lparr> failures := failures cb + 1, lastFailure := Some t',
                             state := (if threshold cb \<le> failures cb + 1 then st_open else st_closed) \<rparr>,
           br_outcome = Inl err, br_invoked = True \<rparr>"
    by (simp add: execute_def recordFailure_def Let_def)
next
  assume "state cb = st_open \<and> since_last_failure cb t \<le> resetTimeoutMs cb"
  then show "execute cb t operation =
         \<lparr> br_breaker = cb, br_outcome = Inl (ErrorObj ''Circuit breaker is open''),
           br_invoked = False \<rparr>"
    by (simp add: execute_def since_last_failure_def)
next
  assume "state cb = st_open \<and> since_last_failure cb t > resetTimeoutMs cb"
  then show "execute cb t (Inr v) =
         \<lparr> br_breaker = cb\<lparr> failures := 0, lastFailure := None, state := st_closed \<rparr>,
           br_outcome = Inr v, br_invoked = True \<rparr>"
    by (simp add: execute_def since_last_failure_def reset_def)
next
  assume a: "cb = execute_all (new_CircuitBreaker th rt) calls
        \<and> state cb = st_open \<and> since_last_failure cb t > resetTimeoutMs cb"
  then have cbeq: "cb = execute_all (new_CircuitBreaker th rt) calls"
    and st: "state cb = st_open" and el: "since_last_failure cb t > resetTimeoutMs cb"
    by blast+
  have "breaker_ok cb" unfolding cbeq by (rule execute_all_ok [OF new_ok])
  with st have "threshold cb \<le> failures cb" by (auto simp: breaker_ok_def)
  with st el show "execute cb t (Inl (err, t')) =
         \<lparr> br_breaker = cb\<lparr> failures := failures cb + 1, lastFailure := Some t', state := st_open \<rparr>,
           br_outcome = Inl err, br_invoked = True \<rparr>"
    by (simp add: execute_def since_last_failure_def recordFailure_def Let_def)
next
  assume cbeq: "cb = execute_all (new_CircuitBreaker th rt) calls"
  have ok: "breaker_ok cb" unfolding cbeq by (rule execute_all_ok [OF new_ok])
  then show "state cb \<noteq> st_half_open" by (auto simp: breaker_ok_def)
  assume "state cb = st_open"
  with ok show "threshold cb \<le> failures cb" by (auto simp: breaker_ok_def)
qed

lemma tripped_value:
  "tripped_breaker =
     \<lparr> failures = 2, lastFailure = Some 6, state = st_open, threshold = 2, resetTimeoutMs = 60000 \<rparr>"
  by (simp add: tripped_breaker_def new_CircuitBreaker_def execute_def recordFailure_def Let_def)

text \<open>A fresh breaker of threshold 2 on a success and on a first failure; the tripped
  breaker called within the cool-down, and after it with a success and with a failure.\<close>

theorem breaker_behaviour_witness:
  "state (new_CircuitBreaker 2 60000) = st_closed
   \<and> execute (new_CircuitBreaker 2 60000) 0 (Inr ())
       = \<lparr> br_breaker = new_CircuitBreaker 2 60000, br_outcome = Inr (), br_invoked = True \<rparr>
   \<and> state (br_breaker (execute (new_CircuitBreaker 2 60000) 0
                (Inl (feed_down, 1) :: (thrown \<times> int) + unit))) = st_closed
   \<and> state tripped_breaker = st_open
   \<and> since_last_failure tripped_breaker 100 \<le> resetTimeoutMs tripped_breaker
   \<and> br_invoked (execute tripped_breaker 100 (Inr ())) = False
   \<and> br_breaker (execute tripped_breaker 100 (Inr ())) = tripped_breaker
   \<and> since_last_failure tripped_breaker 70000 > resetTimeoutMs tripped_breaker
   \<and> state (br_breaker (execute tripped_breaker 70000 (Inr ()))) = st_closed
   \<and> failures (br_breaker (execute tripped_breaker 70000 (Inr ()))) = 0
   \<and> state (br_breaker (execute tripped_breaker 70000
                (Inl (feed_down, 70001) :: (thrown \<times> int) + unit))) = st_open"
proof -
  let ?new = "new_CircuitBreaker 2 60000"
  have c: "state ?new = st_closed" by (simp add: new_CircuitBreaker_def)
  have o: "state tripped_breaker = st_open" by (simp add: tripped_value)
  have early: "since_last_failure tripped_breaker 100 \<le> resetTimeoutMs tripped_breaker"
    by (simp add: tripped_value since_last_failure_def)
  have late: "since_last_failure tripped_breaker 70000 > resetTimeoutMs tripped_breaker"
    by (simp add: tripped_value since_last_failure_def)
  note fresh = breaker_behaviour [of ?new 0 "()" feed_down 1 "Inr ()" 2 60000 "[]"]
  note tripped_early =
    breaker_behaviour [of tripped_breaker 100 "()" feed_down 101 "Inr ()" 2 60000
      "[(0, Inl (feed_down, 1)), (5, Inl (feed_down, 6))]"]
  note tripped_late =
    breaker_behaviour [of tripped_breaker 70000 "()" feed_down 70001 "Inr ()" 2 60000
      "[(0, Inl (feed_down, 1)), (5, Inl (feed_down, 6))]"]
  from fresh c have f1: "execute ?new 0 (Inr ())
       = \<lparr> br_breaker = ?new, br_outcome = Inr (), br_invoked = True \<rparr>"
    by blast
  from fresh c have "execute ?new 0 (Inl (feed_down, 1) :: (thrown \<times> int) + unit) =
         \<lparr> br_breaker = ?new\<lparr> failures := failures ?new + 1, lastFailure := Some 1,
                             state := (if threshold ?new \<le> failures ?new + 1 then st_open else st_closed) \<rparr>,
           br_outcome = Inl feed_down, br_invoked = True \<rparr>"
    by blast
  then have f2: "state (br_breaker (execute ?new 0
                (Inl (feed_down, 1) :: (thrown \<times> int) + unit))) = st_closed"
    by (simp add: new_CircuitBreaker_def)
  from tripped_early o early have "execute tripped_breaker 100 (Inr ()) =
         \<lparr> br_breaker = tripped_breaker, br_outcome = Inl (ErrorObj ''Circuit breaker is open''),
           br_invoked = False \<rparr>"
    by blast
  then have t1: "br_invoked (execute tripped_breaker 100 (Inr ())) = False"
    and t2: "br_breaker (execute tripped_breaker 100 (Inr ())) = tripped_breaker"
    by simp_all
  from tripped_late o late have "execute tripped_breaker 70000 (Inr ()) =
         \<lparr> br_breaker = tripped_breaker\<lparr> failures := 0, lastFailure := None, state := st_closed \<rparr>,
           br_outcome = Inr (), br_invoked = True \<rparr>"
    by blast
  then have t3: "state (br_breaker (execute tripped_breaker 70000 (Inr ()))) = st_closed"
    and t4: "failures (br_breaker (execute tripped_breaker 70000 (Inr ()))) = 0"
    by simp_all
  have "tripped_breaker = execute_all ?new [(0, Inl (feed_down, 1) :: (thrown \<times> int) + unit), (5, Inl (feed_down, 6))]"
    by (simp add: tripped_breaker_def)
  with tripped_late o late have "execute tripped_breaker 70000 (Inl (feed_down, 70001) :: (thrown \<times> int) + unit) =
         \<lparr> br_breaker = tripped_breaker\<lparr> failures := failures tripped_breaker + 1,
              lastFailure := Some 70001, state := st_open \<rparr>,
           br_outcome = Inl feed_down, br_invoked = True \<rparr>"
    by blast
  then have t5: "state (br_breaker (execute tripped_breaker 70000
                (Inl (feed_down, 70001) :: (thrown \<times> int) + unit))) = st_open"
    by simp
  from c f1 f2 o early t1 t2 late t3 t4 t5 show ?thesis by blast
qed

text \<open>
  C5 as stated fails: after a failure and a success the count of a closed breaker is still
  1, not reset; and with threshold 2 the sequence failure, success, failure opens the
  breaker although no two failures were consecutive.
\<close>

theorem breaker_behaviour_counterexample:
  "failures (execute_all (new_CircuitBreaker 2 60000)
       [(0, Inl (feed_down, 1)), (2, Inr ())]) = 1
   \<and> state (execute_all (new_CircuitBreaker 2 60000)
       [(0, Inl (feed_down, 1)), (2, Inr ()), (3, Inl (feed_down, 4))]) = st_open"
  by (simp add: new_CircuitBreaker_def execute_def recordFailure_def reset_def Let_def)

section \<open>Cleanup scan\<close>

lemma length_filter_compl: "length (filter P xs) = length xs - length (filter (\<lambda>x. \<not> P x) xs)"
  using sum_length_filter_compl [of P xs] by simp

text \<open>
  C7, as amended. When none of its three deletions fails, a cleanup scan deletes exactly the
  articles of status \<open>irrelevant\<close> or \<open>error\<close> created more than 90 days ago, the scan logs
  started more than 30 days ago and the daily summaries dated more than 90 days before the
  current date; it reports the total number of rows deleted, queues no job and leaves both
  queues as they were. Articles of status \<open>relevant\<close> survive whatever their age.
\<close>

theorem cleanup_scan:
  "(\<forall>tbl. db_delete_error e tbl = None) \<longrightarrow>
     (\<exists>w' res. processScanOrchestrator_cleanup e w = (w', Inr res)
        \<and> articles_tbl w' =
            filter (\<lambda>a. \<not> ((art_status a = irrelevant \<or> art_status a = error_status)
                            \<and> art_created_at a < now e - 90 * DAY_MS)) (articles_tbl w)
        \<and> scan_logs_tbl w' =
            filter (\<lambda>l. \<not> log_started_at l < now e - 30 * DAY_MS) (scan_logs_tbl w)
        \<and> daily_summaries_tbl w' =
            filter (\<lambda>d. \<not> summary_date d < now e div DAY_MS - 90) (daily_summaries_tbl w)
        \<and> orch_sourcesProcessed res =
            (length (articles_tbl w) - length (articles_tbl w'))
            + (length (scan_logs_tbl w) - length (scan_logs_tbl w'))
            + (length (daily_summaries_tbl w) - length (daily_summaries_tbl w'))
        \<and> orch_jobsQueued res = 0 \<and> orch_errors res = []
        \<and> rss_queue w' = rss_queue w \<and> ai_queue w' = ai_queue w
        \<and> (\<forall>a \<in> set (articles_tbl w). art_status a = relevant \<longrightarrow> a \<in> set (articles_tbl w')))"
proof
  assume ok: "\<forall>tbl. db_delete_error e tbl = None"
  let ?w' = "w\<lparr> articles_tbl := filter (\<lambda>a. \<not> article_expired e a) (articles_tbl w),
                 scan_logs_tbl := filter (\<lambda>l. \<not> scan_log_expired e l) (scan_logs_tbl w),
                 daily_summaries_tbl := filter (\<lambda>d. \<not> daily_summary_expired e d) (daily_summaries_tbl w) \<rparr>"
  let ?n = "length (filter (article_expired e) (articles_tbl w))
            + length (filter (scan_log_expired e) (scan_logs_tbl w))
            + length (filter (daily_summary_expired e) (daily_summaries_tbl w))"
  have run: "runCleanup e w = (?w', Inr ?n)"
    using ok by (simp add: runCleanup_def Let_def)
  then have orch: "processScanOrchestrator_cleanup e w =
      (?w', Inr \<lparr> orch_sourcesProcessed = ?n, orch_jobsQueued = 0, orch_errors = [] \<rparr>)"
    by (simp add: processScanOrchestrator_cleanup_def)
  have a: "articles_tbl ?w' =
            filter (\<lambda>a. \<not> ((art_status a = irrelevant \<or> art_status a = error_status)
                            \<and> art_created_at a < now e - 90 * DAY_MS)) (articles_tbl w)"
    by (simp add: article_expired_def)
  have l: "scan_logs_tbl ?w' =
            filter (\<lambda>l. \<not> log_started_at l < now e - 30 * DAY_MS) (scan_logs_tbl w)"
    by (simp add: scan_log_expired_def)
  have d: "daily_summaries_tbl ?w' =
            filter (\<lambda>d. \<not> summary_date d < now e div DAY_MS - 90) (daily_summaries_tbl w)"
    by (simp add: daily_summary_expired_def)
  have n: "?n = (length (articles_tbl w) - length (articles_tbl ?w'))
            + (length (scan_logs_tbl w) - length (scan_logs_tbl ?w'))
            + (length (daily_summaries_tbl w) - length (daily_summaries_tbl ?w'))"
    using length_filter_compl [of "article_expired e" "articles_tbl w"]
          length_filter_compl [of "scan_log_expired e" "scan_logs_tbl w"]
          length_filter_compl [of "daily_summary_expired e" "daily_summaries_tbl w"]
    by simp
  have r: "\<forall>a \<in> set (articles_tbl w). art_status a = relevant \<longrightarrow> a \<in> set (articles_tbl ?w')"
    by (simp add: article_expired_def)
  show "\<exists>w' res. processScanOrchestrator_cleanup e w = (w', Inr res)
        \<and> articles_tbl w' =
            filter (\<lambda>a. \<not> ((art_status a = irrelevant \<or> art_status a = error_status)
                            \<and> art_created_at a < now e - 90 * DAY_MS)) (articles_tbl w)
        \<and> scan_logs_tbl w' =
            filter (\<lambda>l. \<not> log_started_at l < now e - 30 * DAY_MS) (scan_logs_tbl w)
        \<and> daily_summaries_tbl w' =
            filter (\<lambda>d. \<not> summary_date d < now e div DAY_MS - 90) (daily_summaries_tbl w)
        \<and> orch_sourcesProcessed res =
            (length (articles_tbl w) - length (articles_tbl w'))
            + (length (scan_logs_tbl w) - length (scan_logs_tbl w'))
            + (length (daily_summaries_tbl w) - length (daily_summaries_tbl w'))
        \<and> orch_jobsQueued res = 0 \<and> orch_errors res = []
        \<and> rss_queue w' = rss_queue w \<and> ai_queue w' = ai_queue w
        \<and> (\<forall>a \<in> set (articles_tbl w). art_status a = relevant \<longrightarrow> a \<in> set (articles_tbl w'))"
    apply (rule exI [of _ ?w'])
    apply (rule exI [of _ "\<lparr> orch_sourcesProcessed = ?n, orch_jobsQueued = 0, orch_errors = [] \<rparr>"])
    apply (intro conjI)
    apply (rule orch)
    apply (rule a)
    apply (rule l)
    apply (rule d)
    using n apply simp
    apply simp
    apply simp
    apply simp
    apply simp
    apply (rule r)
    done
qed

text \<open>A cleanup over three articles, two scan logs and two daily summaries: one row of each
  table is past its retention window and deletable.\<close>

theorem cleanup_scan_witness:
  "(\<forall>tbl. db_delete_error quiet_env tbl = None)
   \<and> (\<exists>w' res. processScanOrchestrator_cleanup quiet_env aged_world = (w', Inr res)
        \<and> articles_tbl w' = [stored_row 2 relevant 100, stored_row 3 irrelevant 10]
        \<and> scan_logs_tbl w' = [\<lparr> log_id = 2, log_started_at = 990 * DAY_MS \<rparr>]
        \<and> daily_summaries_tbl w' = [\<lparr> sum_id = 2, summary_date = 950 \<rparr>]
        \<and> orch_sourcesProcessed res = 3
        \<and> orch_jobsQueued res = 0)"
proof -
  have quiet: "\<forall>tbl. db_delete_error quiet_env tbl = None" by (simp add: quiet_env_def)
  from cleanup_scan [of quiet_env aged_world] quiet obtain w' res where
    run: "processScanOrchestrator_cleanup quiet_env aged_world = (w', Inr res)"
    and a: "articles_tbl w' =
            filter (\<lambda>a. \<not> ((art_status a = irrelevant \<or> art_status a = error_status)
                            \<and> art_created_at a < now quiet_env - 90 * DAY_MS)) (articles_tbl aged_world)"
    and l: "scan_logs_tbl w' =
            filter (\<lambda>l. \<not> log_started_at l < now quiet_env - 30 * DAY_MS) (scan_logs_tbl aged_world)"
    and d: "daily_summaries_tbl w' =
            filter (\<lambda>d. \<not> summary_date d < now quiet_env div DAY_MS - 90) (daily_summaries_tbl aged_world)"
    and n: "orch_sourcesProcessed res =
            (length (articles_tbl aged_world) - length (articles_tbl w'))
            + (length (scan_logs_tbl aged_world) - length (scan_logs_tbl w'))
            + (length (daily_summaries_tbl aged_world) - length (daily_summaries_tbl w'))"
    and q: "orch_jobsQueued res = 0"
    by blast
  have a': "articles_tbl w' = [stored_row 2 relevant 100, stored_row 3 irrelevant 10]"
    unfolding a by (simp add: aged_world_def empty_world_def stored_row_def quiet_env_def DAY_MS_def)
  have l': "scan_logs_tbl w' = [\<lparr> log_id = 2, log_started_at = 990 * DAY_MS \<rparr>]"
    unfolding l by (simp add: aged_world_def empty_world_def quiet_env_def DAY_MS_def)
  have d': "daily_summaries_tbl w' = [\<lparr> sum_id = 2, summary_date = 950 \<rparr>]"
    unfolding d by (simp add: aged_world_def empty_world_def quiet_env_def DAY_MS_def)
  have n': "orch_sourcesProcessed res = 3"
    unfolding n a' l' d' by (simp add: aged_world_def empty_world_def)
  from quiet run a' l' d' n' q show ?thesis by blast
qed

text \<open>
  C7 as stated fails: an article that is not relevant (it is still \<open>pending\<close>) and is 100
  days old is not deleted, and the scan reports zero deletions.
\<close>

theorem cleanup_scan_counterexample:
  "art_status (stored_row 1 pending 100) \<noteq> relevant
   \<and> art_created_at (stored_row 1 pending 100) < now quiet_env - 90 * DAY_MS
   \<and> processScanOrchestrator_cleanup quiet_env pending_world
       = (pending_world, Inr \<lparr> orch_sourcesProcessed = 0, orch_jobsQueued = 0, orch_errors = [] \<rparr>)"
  by (simp add: processScanOrchestrator_cleanup_def runCleanup_def pending_world_def empty_world_def
        stored_row_def quiet_env_def DAY_MS_def article_expired_def Let_def)

section \<open>Multi-topic relevance analysis\<close>

















section \<open>Normalizer: the order of the rejection rules\<close>













lemma accepted_iff:
  "a \<in> set (accepted e sid sn items) \<longleftrightarrow> (\<exists>item \<in> set items. normalizeItem e item sid sn = Inr a)"
proof
  assume "a \<in> set (accepted e sid sn items)"
  then obtain item where "item \<in> set items"
    and "a \<in> set (case normalizeItem e item sid sn of Inl r \<Rightarrow> [] | Inr a \<Rightarrow> [a])"
    by (auto simp: accepted_def)
  then have "item \<in> set items \<and> normalizeItem e item sid sn = Inr a"
    by (cases "normalizeItem e item sid sn") simp_all
  then show "\<exists>item \<in> set items. normalizeItem e item sid sn = Inr a" by blast
next
  assume "\<exists>item \<in> set items. normalizeItem e item sid sn = Inr a"
  then obtain item where "item \<in> set items" "normalizeItem e item sid sn = Inr a" by blast
  then show "a \<in> set (accepted e sid sn items)"
    by (force simp: accepted_def)
qed

















lemma trim_sample_url: "trim ''https://a.example/1'' = ''https://a.example/1''"
  by code_simp

lemma trim_sample_text: "trim ''La mairie exige un formulaire.'' = ''La mairie exige un formulaire.''"
  by code_simp

lemma strip_sample_text: "stripHtml ''La mairie exige un formulaire.'' = ''La mairie exige un formulaire.''"
  by code_simp

lemma clean_sample_text: "cleanText ''La mairie exige un formulaire.'' = ''La mairie exige un formulaire.''"
  by code_simp



section \<open>Store: a conflicting insert\<close>

lemma count_le_one:
  "distinct (map f xs) \<Longrightarrow> length (filter (\<lambda>a. f a = h) xs) \<le> 1"
proof (induction xs)
  case Nil
  show ?case by simp
next
  case (Cons x xs)
  show ?case
  proof (cases "f x = h")
    case True
    with Cons.prems have "h \<notin> f ` set xs" by auto
    then have "filter (\<lambda>a. f a = h) xs = []" by (auto simp: filter_empty_conv)
    with True show ?thesis by simp
  next
    case False
    with Cons show ?thesis by simp
  qed
qed

lemma count_ge_one:
  "h \<in> f ` set xs \<Longrightarrow> 1 \<le> length (filter (\<lambda>a. f a = h) xs)"
proof -
  assume "h \<in> f ` set xs"
  then have "filter (\<lambda>a. f a = h) xs \<noteq> []" by (auto simp: filter_empty_conv)
  then show ?thesis by (cases "filter (\<lambda>a. f a = h) xs") simp_all
qed

lemma create_conflict:
  "stored w (hashUrl e (url inp)) \<Longrightarrow> db_insert_error e (url inp) = None \<Longrightarrow>
     create e w inp = (w, Inr None)"
  by (simp add: create_def stored_def Let_def)

lemma create_unique:
  "unique_hashes w \<Longrightarrow> unique_hashes (fst (create e w inp))"
  by (auto simp: create_def unique_hashes_def Let_def list_ex_iff split: option.splits)

lemma create_stores:
  "db_insert_error e (url inp) = None \<Longrightarrow> stored (fst (create e w inp)) (hashUrl e (url inp))"
  by (auto simp: create_def stored_def Let_def list_ex_iff)

lemma rows_with_hash_one:
  assumes "unique_hashes w" and "stored w h"
  shows "rows_with_hash w h = 1"
proof -
  from assms(1) have "rows_with_hash w h \<le> 1"
    unfolding rows_with_hash_def unique_hashes_def by (rule count_le_one)
  moreover from assms(2) have "1 \<le> rows_with_hash w h"
    unfolding rows_with_hash_def by (intro count_ge_one) (auto simp: stored_iff)
  ultimately show ?thesis by simp
qed

lemma duplicate_key_swallowed:
  "str_includes msg ''duplicate key'' \<Longrightarrow> catch_insert_error u (ErrorObj msg) errors = errors"
  by (simp add: catch_insert_error_def insert_error_message_def)

lemma insert_step_duplicate_key:
  assumes "db_insert_error e (url a) = Some (ErrorObj msg)" and "str_includes msg ''duplicate key''"
  shows "insert_step e sn topics st a = st"
proof -
  from assms(1) have "create e (ls_world st) a = (ls_world st, Inl (ErrorObj msg))"
    by (simp add: create_def Let_def)
  with assms(2) show ?thesis
    by (simp add: insert_step_def duplicate_key_swallowed)
qed

text \<open>
  C1. When the content hash of a candidate is already in the articles table, \<open>create\<close>
  leaves the table as it is, returns no row and raises nothing. \<open>create\<close> keeps the content
  hashes of the table unique; after a successful insert, and after a second insert of the
  same candidate, exactly one row has the candidate's content hash. In the fetch worker's
  insert loop an error whose message contains \<open>duplicate key\<close> is not appended to the error
  list, and a turn of the loop whose insert fails with such an error changes nothing.
\<close>

theorem create_conflict_noop:
  "(stored w (hashUrl e (url inp)) \<and> db_insert_error e (url inp) = None \<longrightarrow>
      create e w inp = (w, Inr None))
   \<and> (unique_hashes w \<longrightarrow> unique_hashes (fst (create e w inp)))
   \<and> (unique_hashes w \<and> db_insert_error e (url inp) = None \<longrightarrow>
        rows_with_hash (fst (create e w inp)) (hashUrl e (url inp)) = 1
        \<and> create e (fst (create e w inp)) inp = (fst (create e w inp), Inr None)
        \<and> rows_with_hash (fst (create e (fst (create e w inp)) inp)) (hashUrl e (url inp)) = 1)
   \<and> (str_includes msg ''duplicate key'' \<longrightarrow>
        catch_insert_error u (ErrorObj msg) errors = errors)
   \<and> (db_insert_error e (url a) = Some (ErrorObj msg) \<and> str_includes msg ''duplicate key'' \<longrightarrow>
        insert_step e sn topics st a = st)"
proof (intro conjI impI)
  assume "stored w (hashUrl e (url inp)) \<and> db_insert_error e (url inp) = None"
  then show "create e w inp = (w, Inr None)" by (simp add: create_conflict)
next
  assume "unique_hashes w"
  then show "unique_hashes (fst (create e w inp))" by (rule create_unique)
next
  assume a: "unique_hashes w \<and> db_insert_error e (url inp) = None"
  let ?w1 = "fst (create e w inp)"
  from a have u1: "unique_hashes ?w1" by (simp add: create_unique)
  from a have s1: "stored ?w1 (hashUrl e (url inp))" by (simp add: create_stores)
  from u1 s1 show one: "rows_with_hash ?w1 (hashUrl e (url inp)) = 1" by (rule rows_with_hash_one)
  from s1 a show again: "create e ?w1 inp = (?w1, Inr None)" by (simp add: create_conflict)
  from one again show "rows_with_hash (fst (create e ?w1 inp)) (hashUrl e (url inp)) = 1" by simp
next
  assume "str_includes msg ''duplicate key''"
  then show "catch_insert_error u (ErrorObj msg) errors = errors" by (rule duplicate_key_swallowed)
next
  assume "db_insert_error e (url a) = Some (ErrorObj msg) \<and> str_includes msg ''duplicate key''"
  then show "insert_step e sn topics st a = st" by (simp add: insert_step_duplicate_key)
qed

lemma duplicate_key_message:
  "str_includes ''duplicate key value violates unique constraint'' ''duplicate key''"
  by code_simp

lemma stored_once_value:
  "stored_once =
     empty_world\<lparr> articles_tbl :=
       [\<lparr> art_id = 0, art_source_id = ''s1'',
          art_external_id = Some ''https://a.example/1'', art_url = ''https://a.example/1'',
          art_url_hash = ''https://a.example/1'', art_title = ''First title'',
          art_lede = Some ''first lede'', art_full_text = None, art_author = None,
          art_published_at = None, art_status = pending, art_created_at = 1000 * DAY_MS \<rparr>],
       next_article_id := 1 \<rparr>"
  by (simp add: stored_once_def create_def quiet_env_def empty_world_def article_one_def
        candidate_def or_null_def Let_def)

text \<open>The first sample article inserted twice into the empty store, and one turn of the
  insert loop when the store answers with a duplicate-key error.\<close>

theorem create_conflict_noop_witness:
  "stored stored_once (hashUrl quiet_env (url article_one))
   \<and> db_insert_error quiet_env (url article_one) = None
   \<and> unique_hashes empty_world
   \<and> create quiet_env stored_once article_one = (stored_once, Inr None)
   \<and> rows_with_hash stored_once (hashUrl quiet_env (url article_one)) = 1
   \<and> db_insert_error racing_env (url article_one)
       = Some (ErrorObj ''duplicate key value violates unique constraint'')
   \<and> str_includes ''duplicate key value violates unique constraint'' ''duplicate key''
   \<and> ls_errors (insert_step racing_env ''Le Monde'' [topic_A] fresh_loop article_one) = []"
proof -
  have s: "stored stored_once (hashUrl quiet_env (url article_one))"
    by (simp add: stored_once_value stored_def empty_world_def quiet_env_def article_one_def candidate_def)
  have q: "db_insert_error quiet_env (url article_one) = None" by (simp add: quiet_env_def)
  have u: "unique_hashes empty_world" by (simp add: unique_hashes_def empty_world_def)
  have r: "db_insert_error racing_env (url article_one)
       = Some (ErrorObj ''duplicate key value violates unique constraint'')"
    by (simp add: racing_env_def quiet_env_def)
  note twice = create_conflict_noop [of empty_world quiet_env article_one]
  note again = create_conflict_noop [of stored_once quiet_env article_one]
  note race = create_conflict_noop
    [of _ racing_env _ "''duplicate key value violates unique constraint''" _ _ article_one
        "''Le Monde''" "[topic_A]" fresh_loop]
  from again s q have c: "create quiet_env stored_once article_one = (stored_once, Inr None)"
    by blast
  from twice u q have "rows_with_hash (fst (create quiet_env empty_world article_one))
      (hashUrl quiet_env (url article_one)) = 1"
    by blast
  then have n: "rows_with_hash stored_once (hashUrl quiet_env (url article_one)) = 1"
    by (simp add: stored_once_def)
  from race r duplicate_key_message
  have "insert_step racing_env ''Le Monde'' [topic_A] fresh_loop article_one = fresh_loop"
    by blast
  then have e: "ls_errors (insert_step racing_env ''Le Monde'' [topic_A] fresh_loop article_one) = []"
    by (simp add: fresh_loop_def)
  from s q u c n r duplicate_key_message e show ?thesis by blast
qed

section \<open>Fetch worker: the terminal cache mark\<close>

lemma trim_plain_title: "trim ''Taxes'' = ''Taxes''"
  by code_simp

lemma clean_plain_title: "cleanText ''Taxes'' = ''Taxes''"
  by code_simp

lemma not_duplicate_key: "\<not> str_includes ''Connection terminated'' ''duplicate key''"
  by code_simp

lemma normalize_plain:
  "hashUrl e = (\<lambda>u. u) \<Longrightarrow> url_href e = (\<lambda>u. Some u) \<Longrightarrow>
   normalizeItems e [plain_item] ''s1'' ''Le Monde''
     = \<lparr> norm_articles = [feed_candidate ''https://a.example/1'' ''Taxes'' ''La mairie exige un formulaire.''],
         norm_skipped = 0, norm_reasons = Map.empty \<rparr>"
  by (simp add: normalizeItems_def normalize_step_def plain_item_def feed_item_def normalizeItem_def
        cleanUrl_def extractLede_def parseDate_def or_else_def truthy_def or_null_def candidate_def
        feed_candidate_def trim_plain_title clean_plain_title trim_sample_url trim_sample_text
        strip_sample_text clean_sample_text Let_def)

lemmas worker_eval =
  filterDuplicates_def batchCheckCache_def quiet_env_def empty_world_def candidate_def
  feed_candidate_def
  cache_step_def cache_value_state_def REDIS_KEY_PREFIX_def batchCheckDatabase_def
  batchCheckDatabase_loop.simps select_url_hashes_def db_step_def cacheUrlHash_def
  insert_loop_def insert_step_def create_def catch_insert_error_def insert_error_message_def
  markBatchAsStored_def Let_def

text \<open>
  C2 fails on the code. A scan of a feed with one new, valid item, on an empty store and an
  empty cache, when the insert throws a connection error: the error is recorded, no row is
  stored, and \<open>markBatchAsStored\<close> still writes \<open>exists\<close> for the item's content hash. A later
  scan of the same feed, with the store working again, counts the item as a duplicate and
  stores nothing.
\<close>

theorem failed_insert_marked_stored:
  "processRssScan broken_env empty_world (fetched [plain_item]) ''s1'' ''Le Monde'' []
     = (poisoned_world,
        Inr \<lparr> res_fetched = 1, res_normalized = 1, res_newArticles = 1, res_duplicates = 0,
              res_queued = 0,
              res_errors = [''Insert error for https://a.example/1: Connection terminated''] \<rparr>)
   \<and> articles_tbl poisoned_world = []
   \<and> redis poisoned_world (REDIS_KEY_PREFIX @ ''https://a.example/1'')
       = Some (''exists'', CACHE_TTL_SECONDS)
   \<and> processRssScan quiet_env poisoned_world (fetched [plain_item]) ''s1'' ''Le Monde'' []
     = (poisoned_world,
        Inr \<lparr> res_fetched = 1, res_normalized = 1, res_newArticles = 0, res_duplicates = 1,
              res_queued = 0, res_errors = [] \<rparr>)"
proof -
  have n1: "normalizeItems broken_env [plain_item] ''s1'' ''Le Monde''
     = \<lparr> norm_articles = [feed_candidate ''https://a.example/1'' ''Taxes'' ''La mairie exige un formulaire.''],
         norm_skipped = 0, norm_reasons = Map.empty \<rparr>"
    by (rule normalize_plain) (simp_all add: broken_env_def quiet_env_def)
  have n2: "normalizeItems quiet_env [plain_item] ''s1'' ''Le Monde''
     = \<lparr> norm_articles = [feed_candidate ''https://a.example/1'' ''Taxes'' ''La mairie exige un formulaire.''],
         norm_skipped = 0, norm_reasons = Map.empty \<rparr>"
    by (rule normalize_plain) (simp_all add: quiet_env_def)
  have first: "processRssScan broken_env empty_world (fetched [plain_item]) ''s1'' ''Le Monde'' []
     = (poisoned_world,
        Inr \<lparr> res_fetched = 1, res_normalized = 1, res_newArticles = 1, res_duplicates = 0,
              res_queued = 0,
              res_errors = [''Insert error for https://a.example/1: Connection terminated''] \<rparr>)"
    apply (simp add: processRssScan_def fetched_def n1 Let_def)
    apply (simp add: worker_eval broken_env_def poisoned_world_def not_duplicate_key)
    done
  have later: "processRssScan quiet_env poisoned_world (fetched [plain_item]) ''s1'' ''Le Monde'' []
     = (poisoned_world,
        Inr \<lparr> res_fetched = 1, res_normalized = 1, res_newArticles = 0, res_duplicates = 1,
              res_queued = 0, res_errors = [] \<rparr>)"
    apply (simp add: processRssScan_def fetched_def n2 Let_def)
    apply (simp add: worker_eval poisoned_world_def)
    done
  have "articles_tbl poisoned_world = []"
    and "redis poisoned_world (REDIS_KEY_PREFIX @ ''https://a.example/1'')
           = Some (''exists'', CACHE_TTL_SECONDS)"
    by (simp_all add: poisoned_world_def empty_world_def)
  with first later show ?thesis by blast
qed

section \<open>Rate limiter: calls issued together\<close>

text \<open>
  C9 fails on the code. Three \<open>waitForToken\<close> calls issued together at time 0 on a limiter of
  capacity 1 and interval 1000 ms: the first takes the token at once; the second and the
  third both sleep 1000 ms and both resolve at time 1000, the third leaving the limiter with
  \<open>-1\<close> tokens. The bound \<open>((N - C) / C) * I\<close> for the third call is 2000 ms. The same three
  calls awaited one by one resolve at 0, 1000 and 2000.
\<close>

theorem burst_resolves_early:
  "burst (new_RateLimiter 1 1000 0) 0 3
     = (\<lparr> tokens = -1, maxTokens = 1, interval = 1000, lastRefill = 1000 \<rparr>, [0, 1000, 1000])
   \<and> (1000 :: real) < ((3 - 1) / 1) * 1000
   \<and> awaited (new_RateLimiter 1 1000 0) 0 3
     = (\<lparr> tokens = 0, maxTokens = 1, interval = 1000, lastRefill = 2000 \<rparr>, [0, 1000, 2000])"
  by (simp add: burst_def new_RateLimiter_def waitForToken_start_def waitForToken_resume_def
        refillTokens_def Let_def eval_nat_numeral)

end
